theory Spec2Isabelle
  imports Complex_Main
begin

section \<open>Floats, arrays and the numpy operations of Main.py\<close>

text \<open>
  Main.py computes with Python floats and one-dimensional numpy float arrays, in binary64.
  The theory reads its arithmetic twice. The first reading, in this section and the next,
  takes every operator as the exact operation on real numbers: it is the code wherever
  no operation rounds, overflows or underflows, and it gives the exact values that the
  rounded results are compared with. The second reading, from the section on binary64
  on, rounds the result of every operator as IEEE 754 does. A finite float is a real
  number and an array of finite floats a list of reals. The exceptions that the modelled
  code can raise are the values of \<open>error\<close>: \<open>TypeError\<close> (a call with the wrong number of
  positional arguments) and \<open>ValueError\<close> (numpy: operands could not be broadcast
  together).
\<close>

datatype error = TypeError | ValueError

type_synonym ndarray = "real list"

text \<open>
  Dividing by a zero float does not raise in numpy: it yields a non-finite float (and a
  RuntimeWarning). A float that may be non-finite is an \<open>npfloat\<close>.
\<close>

datatype npfloat = Fin real | PInf | NInf | NaN

type_synonym fparray = "npfloat list"

text \<open>
  A binary operator on two one-dimensional arrays follows numpy's broadcasting: equal
  lengths combine element by element, an array of length 1 is stretched to the other's
  length, and any other pair of lengths raises \<open>ValueError\<close>.
\<close>

definition broadcast :: "('a \<Rightarrow> 'b \<Rightarrow> 'c) \<Rightarrow> 'a list \<Rightarrow> 'b list \<Rightarrow> error + 'c list" where
  "broadcast f a b =
     (if length a = length b then Inr (map2 f a b)
      else if length a = 1 then Inr (map (f (hd a)) b)
      else if length b = 1 then Inr (map (\<lambda>x. f x (hd b)) a)
      else Inl ValueError)"

text \<open>\<open>c * a\<close> for a float \<open>c\<close> and an array \<open>a\<close>; \<open>a + b\<close> for two arrays.\<close>

definition np_multiply :: "real \<Rightarrow> ndarray \<Rightarrow> ndarray" where
  "np_multiply c a = map (\<lambda>x. c * x) a"

definition np_add :: "ndarray \<Rightarrow> ndarray \<Rightarrow> error + ndarray" where
  "np_add a b = broadcast (\<lambda>x y. x + y) a b"

text \<open>The same two operators when the right operand may hold non-finite floats.\<close>

fun float_mul :: "real \<Rightarrow> npfloat \<Rightarrow> npfloat" where
  "float_mul c (Fin x) = Fin (c * x)"
| "float_mul c PInf = (if c = 0 then NaN else if 0 < c then PInf else NInf)"
| "float_mul c NInf = (if c = 0 then NaN else if 0 < c then NInf else PInf)"
| "float_mul c NaN = NaN"

fun float_add :: "real \<Rightarrow> npfloat \<Rightarrow> npfloat" where
  "float_add x (Fin y) = Fin (x + y)"
| "float_add x PInf = PInf"
| "float_add x NInf = NInf"
| "float_add x NaN = NaN"

definition np_multiply_fp :: "real \<Rightarrow> fparray \<Rightarrow> fparray" where
  "np_multiply_fp c a = map (float_mul c) a"

definition np_add_fp :: "ndarray \<Rightarrow> fparray \<Rightarrow> error + fparray" where
  "np_add_fp a b = broadcast float_add a b"

text \<open>
  \<open>x / n\<close> for finite floats, \<open>n\<close> being a norm (so never negative, and \<open>+0.0\<close> when
  zero): \<open>0 / 0\<close> is NaN and a non-zero float over zero is an infinity of its sign.
\<close>

definition float_div :: "real \<Rightarrow> real \<Rightarrow> npfloat" where
  "float_div x n =
     (if n = 0 then (if x = 0 then NaN else if 0 < x then PInf else NInf)
      else Fin (x / n))"

definition np_true_divide :: "ndarray \<Rightarrow> real \<Rightarrow> fparray" where
  "np_true_divide a n = map (\<lambda>x. float_div x n) a"

text \<open>\<open>np.linalg.norm\<close> of a one-dimensional array: the square root of \<open>dot(a, a)\<close>.\<close>

definition np_linalg_norm :: "ndarray \<Rightarrow> real" where
  "np_linalg_norm a = sqrt (sum_list (map (\<lambda>x. x * x) a))"

section \<open>BezierSurface\<close>

record BezierSurface =
  control_points :: "ndarray list"
  delta :: real
  direction_vector :: fparray
  u0 :: real
  v0 :: real

text \<open>
  \<open>BezierSurface.__init__\<close>: the five assignments. The body has no check and no
  \<open>raise\<close>, so every call returns the object.
\<close>

definition BezierSurface_init ::
  "ndarray list \<Rightarrow> real \<Rightarrow> ndarray \<Rightarrow> real \<Rightarrow> real \<Rightarrow> error + BezierSurface" where
  "BezierSurface_init cps dl dv u v =
     Inr \<lparr>control_points = cps,
          delta = dl,
          direction_vector = np_true_divide dv (np_linalg_norm dv),
          u0 = u,
          v0 = v\<rparr>"

text \<open>
  \<open>BezierSurface.bezier_point\<close>: three levels of \<open>(1 - u) * a + u * b\<close>, in the order
  of the source lines; the first addition that cannot be broadcast raises.
\<close>

definition bezier_point ::
  "ndarray \<Rightarrow> ndarray \<Rightarrow> ndarray \<Rightarrow> ndarray \<Rightarrow> real \<Rightarrow> error + ndarray" where
  "bezier_point p0 p1 p2 p3 u =
     (case np_add (np_multiply (1 - u) p0) (np_multiply u p1) of Inl e \<Rightarrow> Inl e | Inr p01 \<Rightarrow>
     (case np_add (np_multiply (1 - u) p1) (np_multiply u p2) of Inl e \<Rightarrow> Inl e | Inr p12 \<Rightarrow>
     (case np_add (np_multiply (1 - u) p2) (np_multiply u p3) of Inl e \<Rightarrow> Inl e | Inr p23 \<Rightarrow>
     (case np_add (np_multiply (1 - u) p01) (np_multiply u p12) of Inl e \<Rightarrow> Inl e | Inr p012 \<Rightarrow>
     (case np_add (np_multiply (1 - u) p12) (np_multiply u p23) of Inl e \<Rightarrow> Inl e | Inr p123 \<Rightarrow>
      np_add (np_multiply (1 - u) p012) (np_multiply u p123))))))"

text \<open>
  \<open>BezierSurface.surface_point\<close>. \<open>bezier_point(*self.control_points, u)\<close> unpacks the
  stored sequence into the four point parameters: any other number of elements is a
  \<open>TypeError\<close>. \<open>v * self.delta * self.direction_vector\<close> multiplies the two floats
  first.
\<close>

definition surface_point :: "BezierSurface \<Rightarrow> real \<Rightarrow> real \<Rightarrow> error + fparray" where
  "surface_point self u v =
     (case control_points self of
        [p0, p1, p2, p3] \<Rightarrow>
          (case bezier_point p0 p1 p2 p3 u of
             Inl e \<Rightarrow> Inl e
           | Inr r_u \<Rightarrow> np_add_fp r_u (np_multiply_fp (v * delta self) (direction_vector self)))
      | _ \<Rightarrow> Inl TypeError)"

text \<open>
  \<open>BezierSurface.calculate_and_display_point\<close>: the point \<open>r_uv\<close> that it computes
  and prints.
\<close>

definition calculate_and_display_point :: "BezierSurface \<Rightarrow> error + fparray" where
  "calculate_and_display_point self = surface_point self (u0 self) (v0 self)"

section \<open>Two closed forms of one coordinate of the curve\<close>

text \<open>
  The value that the six source lines of \<open>bezier_point\<close> compute in one coordinate, from
  the four control points' values \<open>a\<close>, \<open>b\<close>, \<open>c\<close>, \<open>d\<close> in that coordinate.
\<close>

definition casteljau :: "real \<Rightarrow> real \<Rightarrow> real \<Rightarrow> real \<Rightarrow> real \<Rightarrow> real" where
  "casteljau a b c d u =
     (1 - u) * ((1 - u) * ((1 - u) * a + u * b) + u * ((1 - u) * b + u * c)) +
     u * ((1 - u) * ((1 - u) * b + u * c) + u * ((1 - u) * c + u * d))"

text \<open>
  The Bernstein polynomial form of a cubic, as the specification words it:
  \<open>(1-u)^3*p0 + 3*(1-u)^2*u*p1 + 3*(1-u)*u^2*p2 + u^3*p3\<close>, in one coordinate.
\<close>

definition bernstein :: "real \<Rightarrow> real \<Rightarrow> real \<Rightarrow> real \<Rightarrow> real \<Rightarrow> real" where
  "bernstein a b c d u =
     (1 - u) ^ 3 * a + 3 * (1 - u) ^ 2 * u * b + 3 * (1 - u) * u ^ 2 * c + u ^ 3 * d"

section \<open>Binary64 arithmetic\<close>

text \<open>
  A finite binary64 number is an integer of magnitude below \<open>2^53\<close> times a power of two
  not below \<open>2^-1074\<close>, of magnitude below \<open>2^1024\<close>. The result of an arithmetic
  operator is the exact result rounded to the nearest such number, ties to the even
  integer (\<open>rne\<close>); the spacing of the numbers around \<open>x\<close> is \<open>quantum x\<close>, which is
  \<open>2^(e-52)\<close> for \<open>2^e \<le> |x| < 2^(e+1)\<close> and \<open>2^-1074\<close> in the subnormal range.
\<close>

definition rne :: "real \<Rightarrow> int" where
  "rne t = (let f = \<lfloor>t\<rfloor> in
     if t - of_int f < 1 / 2 then f
     else if 1 / 2 < t - of_int f then f + 1
     else if even f then f else f + 1)"

definition expo :: "real \<Rightarrow> int" where
  "expo x = \<lfloor>log 2 \<bar>x\<bar>\<rfloor>"

definition quantum :: "real \<Rightarrow> real" where
  "quantum x = 2 powi (max (expo x - 52) (- 1074))"

definition round64 :: "real \<Rightarrow> real" where
  "round64 x = (if x = 0 then 0 else of_int (rne (x / quantum x)) * quantum x)"

text \<open>
  \<open>fl x\<close> is the float that an operator with exact result \<open>x\<close> returns: an infinity when
  the rounded magnitude reaches \<open>2^1024\<close>. The two zeros of binary64 are one value here
  (they compare equal, and the code divides by no zero but that of a norm, which is +0.0).
\<close>

definition fl :: "real \<Rightarrow> npfloat" where
  "fl x = (let y = round64 x in
     if 2 ^ 1024 \<le> y then PInf else if y \<le> - (2 ^ 1024) then NInf else Fin y)"

text \<open>The operators \<open>+\<close>, unary and binary \<open>-\<close>, and \<open>*\<close> on floats.\<close>

fun f64_add :: "npfloat \<Rightarrow> npfloat \<Rightarrow> npfloat" where
  "f64_add (Fin x) (Fin y) = fl (x + y)"
| "f64_add NaN b = NaN"
| "f64_add a NaN = NaN"
| "f64_add PInf NInf = NaN"
| "f64_add NInf PInf = NaN"
| "f64_add PInf b = PInf"
| "f64_add a PInf = PInf"
| "f64_add NInf b = NInf"
| "f64_add a NInf = NInf"

fun f64_neg :: "npfloat \<Rightarrow> npfloat" where
  "f64_neg (Fin x) = Fin (- x)"
| "f64_neg PInf = NInf"
| "f64_neg NInf = PInf"
| "f64_neg NaN = NaN"

definition f64_sub :: "npfloat \<Rightarrow> npfloat \<Rightarrow> npfloat" where
  "f64_sub a b = f64_add a (f64_neg b)"

fun f64_sign :: "npfloat \<Rightarrow> real" where
  "f64_sign (Fin x) = sgn x"
| "f64_sign PInf = 1"
| "f64_sign NInf = - 1"
| "f64_sign NaN = 0"

fun f64_mul :: "npfloat \<Rightarrow> npfloat \<Rightarrow> npfloat" where
  "f64_mul (Fin x) (Fin y) = fl (x * y)"
| "f64_mul NaN b = NaN"
| "f64_mul a NaN = NaN"
| "f64_mul a b =
     (if f64_sign a * f64_sign b = 0 then NaN
      else if 0 < f64_sign a * f64_sign b then PInf else NInf)"

text \<open>
  \<open>x / n\<close> for a finite float \<open>x\<close> and a norm \<open>n\<close> (so never negative, and +0.0 when
  zero), and the square root.
\<close>

fun f64_div :: "real \<Rightarrow> npfloat \<Rightarrow> npfloat" where
  "f64_div x (Fin n) =
     (if n = 0 then (if x = 0 then NaN else if 0 < x then PInf else NInf)
      else fl (x / n))"
| "f64_div x PInf = Fin 0"
| "f64_div x NInf = Fin 0"
| "f64_div x NaN = NaN"

fun f64_sqrt :: "npfloat \<Rightarrow> npfloat" where
  "f64_sqrt (Fin s) = (if 0 \<le> s then fl (sqrt s) else NaN)"
| "f64_sqrt PInf = PInf"
| "f64_sqrt NInf = NaN"
| "f64_sqrt NaN = NaN"

text \<open>
  The unit roundoff and half the least subnormal: the error of one rounding of \<open>x\<close> is
  at most \<open>eps64 * |x| + eta64\<close>.
\<close>

definition eps64 :: real where
  "eps64 = 2 powi (- 53)"

definition eta64 :: real where
  "eta64 = 2 powi (- 1075)"

section \<open>Main.py in binary64\<close>

text \<open>
  The same source lines with every operator rounded. \<open>np.linalg.norm\<close> is the square
  root of \<open>dot(a, a)\<close>, the products accumulated from left to right. The numbers passed
  in (the coordinates, \<open>delta\<close>, \<open>u\<close>, \<open>v\<close>) are finite and range over the reals; the
  floats among them are the \<open>x\<close> with \<open>fl x = Fin x\<close>, so what holds for all reals holds
  for every finite float that the code can receive.
\<close>

definition np_multiply_f64 :: "npfloat \<Rightarrow> fparray \<Rightarrow> fparray" where
  "np_multiply_f64 c a = map (\<lambda>x. f64_mul c x) a"

definition np_add_f64 :: "fparray \<Rightarrow> fparray \<Rightarrow> error + fparray" where
  "np_add_f64 a b = broadcast f64_add a b"

definition np_linalg_norm_f64 :: "ndarray \<Rightarrow> npfloat" where
  "np_linalg_norm_f64 a =
     f64_sqrt (foldl (\<lambda>s x. f64_add s (f64_mul (Fin x) (Fin x))) (Fin 0) a)"

text \<open>\<open>BezierSurface.__init__\<close>: no check, no \<open>raise\<close>.\<close>

definition BezierSurface_init_f64 ::
  "ndarray list \<Rightarrow> real \<Rightarrow> ndarray \<Rightarrow> real \<Rightarrow> real \<Rightarrow> error + BezierSurface" where
  "BezierSurface_init_f64 cps dl dv u v =
     Inr \<lparr>control_points = cps,
          delta = dl,
          direction_vector = map (\<lambda>x. f64_div x (np_linalg_norm_f64 dv)) dv,
          u0 = u,
          v0 = v\<rparr>"

text \<open>
  \<open>BezierSurface.bezier_point\<close>. Each of its six lines is \<open>(1 - u) * a + u * b\<close> on
  arrays: \<open>interpolate_f64\<close>.
\<close>

definition interpolate_f64 :: "real \<Rightarrow> fparray \<Rightarrow> fparray \<Rightarrow> error + fparray" where
  "interpolate_f64 u a b =
     np_add_f64 (np_multiply_f64 (f64_sub (Fin 1) (Fin u)) a) (np_multiply_f64 (Fin u) b)"

definition bezier_point_f64 ::
  "fparray \<Rightarrow> fparray \<Rightarrow> fparray \<Rightarrow> fparray \<Rightarrow> real \<Rightarrow> error + fparray" where
  "bezier_point_f64 p0 p1 p2 p3 u =
     (case interpolate_f64 u p0 p1 of Inl e \<Rightarrow> Inl e | Inr p01 \<Rightarrow>
     (case interpolate_f64 u p1 p2 of Inl e \<Rightarrow> Inl e | Inr p12 \<Rightarrow>
     (case interpolate_f64 u p2 p3 of Inl e \<Rightarrow> Inl e | Inr p23 \<Rightarrow>
     (case interpolate_f64 u p01 p12 of Inl e \<Rightarrow> Inl e | Inr p012 \<Rightarrow>
     (case interpolate_f64 u p12 p23 of Inl e \<Rightarrow> Inl e | Inr p123 \<Rightarrow>
      interpolate_f64 u p012 p123)))))"

text \<open>\<open>BezierSurface.surface_point\<close> and \<open>BezierSurface.calculate_and_display_point\<close>.\<close>

definition surface_point_f64 :: "BezierSurface \<Rightarrow> real \<Rightarrow> real \<Rightarrow> error + fparray" where
  "surface_point_f64 self u v =
     (case control_points self of
        [p0, p1, p2, p3] \<Rightarrow>
          (case bezier_point_f64 (map Fin p0) (map Fin p1) (map Fin p2) (map Fin p3) u of
             Inl e \<Rightarrow> Inl e
           | Inr r_u \<Rightarrow>
               np_add_f64 r_u
                 (np_multiply_f64 (f64_mul (Fin v) (Fin (delta self))) (direction_vector self)))
      | _ \<Rightarrow> Inl TypeError)"

definition calculate_and_display_point_f64 :: "BezierSurface \<Rightarrow> error + fparray" where
  "calculate_and_display_point_f64 self = surface_point_f64 self (u0 self) (v0 self)"

text \<open>
  A method receives the object by reference and could assign to its attributes, so a
  call in state-passing form returns the object after the call next to the result.
  Neither method body assigns to an attribute of \<open>self\<close>. \<open>calls_f64\<close> is the object
  after a sequence of method calls.
\<close>

datatype method_call = Surface_point real real | Calculate_and_display_point

fun call_f64 :: "BezierSurface \<Rightarrow> method_call \<Rightarrow> BezierSurface \<times> (error + fparray)" where
  "call_f64 self (Surface_point u v) = (self, surface_point_f64 self u v)"
| "call_f64 self Calculate_and_display_point = (self, calculate_and_display_point_f64 self)"

fun calls_f64 :: "BezierSurface \<Rightarrow> method_call list \<Rightarrow> BezierSurface" where
  "calls_f64 self [] = self"
| "calls_f64 self (c # cs) = calls_f64 (fst (call_f64 self c)) cs"

text \<open>One coordinate of \<open>interpolate_f64\<close> and of \<open>bezier_point_f64\<close>.\<close>

definition lerp_f64 :: "real \<Rightarrow> npfloat \<Rightarrow> npfloat \<Rightarrow> npfloat" where
  "lerp_f64 u a b = f64_add (f64_mul (f64_sub (Fin 1) (Fin u)) a) (f64_mul (Fin u) b)"

definition casteljau_f64 :: "npfloat \<Rightarrow> npfloat \<Rightarrow> npfloat \<Rightarrow> npfloat \<Rightarrow> real \<Rightarrow> npfloat" where
  "casteljau_f64 a b c d u =
     lerp_f64 u (lerp_f64 u (lerp_f64 u a b) (lerp_f64 u b c))
                (lerp_f64 u (lerp_f64 u b c) (lerp_f64 u c d))"

section \<open>The curve in exact arithmetic\<close>

lemma np_add_3: "np_add [a, b, c] [x, y, z] = Inr [a + x, b + y, c + z]"
  by (simp add: np_add_def broadcast_def)

lemma np_multiply_3: "np_multiply k [a, b, c] = [k * a, k * b, k * c]"
  by (simp add: np_multiply_def)

lemma bezier_point_3:
  "bezier_point [x0, y0, z0] [x1, y1, z1] [x2, y2, z2] [x3, y3, z3] u =
   Inr [casteljau x0 x1 x2 x3 u, casteljau y0 y1 y2 y3 u, casteljau z0 z1 z2 z3 u]"
  by (simp add: bezier_point_def casteljau_def np_add_3 np_multiply_3)

lemma casteljau_0: "casteljau a b c d 0 = a"
  by (simp add: casteljau_def)

lemma casteljau_1: "casteljau a b c d 1 = d"
  by (simp add: casteljau_def)

lemma casteljau_bernstein: "casteljau a b c d u = bernstein a b c d u"
  by (simp add: casteljau_def bernstein_def power2_eq_square power3_eq_cube algebra_simps)



text \<open>
  C1. For all finite 3D control points, the curve evaluated at parameter 0 is exactly
  \<open>p0\<close> and at parameter 1 exactly \<open>p3\<close>.
\<close>

theorem bezier_point_endpoints:
  "bezier_point [x0, y0, z0] [x1, y1, z1] [x2, y2, z2] [x3, y3, z3] 0 = Inr [x0, y0, z0] \<and>
   bezier_point [x0, y0, z0] [x1, y1, z1] [x2, y2, z2] [x3, y3, z3] 1 = Inr [x3, y3, z3]"
  by (simp add: bezier_point_3 casteljau_0 casteljau_1)

section \<open>The constructor and the surface in exact arithmetic\<close>

lemma surface_point_TypeError:
  "length (control_points self) \<noteq> 4 \<Longrightarrow> surface_point self u v = Inl TypeError"
  by (auto simp add: surface_point_def split: list.splits)

lemma surface_point_3:
  "surface_point
     \<lparr>control_points = [[x0, y0, z0], [x1, y1, z1], [x2, y2, z2], [x3, y3, z3]],
      delta = dl, direction_vector = [Fin a, Fin b, Fin c], u0 = u', v0 = v'\<rparr> u v =
   Inr [Fin (casteljau x0 x1 x2 x3 u + v * dl * a),
        Fin (casteljau y0 y1 y2 y3 u + v * dl * b),
        Fin (casteljau z0 z1 z2 z3 u + v * dl * c)]"
  by (simp add: surface_point_def bezier_point_3 np_add_fp_def np_multiply_fp_def broadcast_def)

lemma init_3:
  assumes "np_linalg_norm [dx, dy, dz] \<noteq> 0"
  shows "BezierSurface_init cps dl [dx, dy, dz] u v =
    Inr \<lparr>control_points = cps, delta = dl,
         direction_vector = [Fin (dx / np_linalg_norm [dx, dy, dz]),
                             Fin (dy / np_linalg_norm [dx, dy, dz]),
                             Fin (dz / np_linalg_norm [dx, dy, dz])],
         u0 = u, v0 = v\<rparr>"
  using assms by (simp add: BezierSurface_init_def np_true_divide_def float_div_def)

lemma sqrt_25: "sqrt 25 = 5"
proof -
  have "sqrt (5 ^ 2) = (5::real)" by (rule real_sqrt_unique) simp_all
  then show ?thesis by simp
qed

lemma norm_0_0_5: "np_linalg_norm [0, 0, 5] = 5"
  using sqrt_25 by (simp add: np_linalg_norm_def)

lemma norm_0_0_0: "np_linalg_norm [0, 0, 0] = 0"
  by (simp add: np_linalg_norm_def)

text \<open>
  C9. The surface constructed from the control points (0,0,0), (1,2,0), (2,2,0),
  (3,0,0), \<open>delta = 2\<close>, the raw direction (0,0,5), \<open>u0 = 0.5\<close> and \<open>v0 = 1\<close> stores
  the direction (0,0,1), and on it \<open>surface_point(0, 0) = (0,0,0)\<close>,
  \<open>surface_point(1, 0) = (3,0,0)\<close> and \<open>surface_point(0.5, 1) = (1.5, 1.5, 2.0)\<close>.
\<close>

theorem surface_point_scenario:
  "\<exists>s. BezierSurface_init [[0, 0, 0], [1, 2, 0], [2, 2, 0], [3, 0, 0]] 2 [0, 0, 5] (1 / 2) 1 = Inr s \<and>
       direction_vector s = [Fin 0, Fin 0, Fin 1] \<and>
       surface_point s 0 0 = Inr [Fin 0, Fin 0, Fin 0] \<and>
       surface_point s 1 0 = Inr [Fin 3, Fin 0, Fin 0] \<and>
       surface_point s (1 / 2) 1 = Inr [Fin (3 / 2), Fin (3 / 2), Fin 2] \<and>
       calculate_and_display_point s = Inr [Fin (3 / 2), Fin (3 / 2), Fin 2]"
proof -
  have n: "np_linalg_norm [0, 0, 5] \<noteq> 0" by (simp add: norm_0_0_5)
  show ?thesis
    by (simp add: init_3 [OF n] norm_0_0_5 calculate_and_display_point_def surface_point_3
        casteljau_def)
qed

text \<open>
  C7. Constructing a surface with a zero-norm direction is to fail with an error. The
  code does not do so: at the zero vector the constructor raises nothing and returns an
  object whose stored direction is NaN in every component (the \<open>0 / 0\<close> of numpy), and
  the point evaluated on that object is NaN in every coordinate.
\<close>

theorem init_zero_direction_not_rejected:
  "BezierSurface_init [[0, 0, 0], [1, 2, 0], [2, 2, 0], [3, 0, 0]] 2 [0, 0, 0] (1 / 2) 1 =
    Inr \<lparr>control_points = [[0, 0, 0], [1, 2, 0], [2, 2, 0], [3, 0, 0]], delta = 2,
         direction_vector = [NaN, NaN, NaN], u0 = 1 / 2, v0 = 1\<rparr> \<and>
   surface_point
     \<lparr>control_points = [[0, 0, 0], [1, 2, 0], [2, 2, 0], [3, 0, 0]], delta = 2,
      direction_vector = [NaN, NaN, NaN], u0 = 1 / 2, v0 = 1\<rparr> (1 / 2) 1 =
    Inr [NaN, NaN, NaN]"
  by (simp add: BezierSurface_init_def np_true_divide_def float_div_def norm_0_0_0
      surface_point_def bezier_point_3 np_add_fp_def np_multiply_fp_def broadcast_def)

text \<open>
  C8, as the code has it. The constructor does not check the control points: for a
  sequence of any length, of points with any numbers of coordinates, it raises nothing
  and returns the object, which stores the sequence as given. When the sequence does not
  have exactly 4 points, every later call of \<open>surface_point\<close> raises \<open>TypeError\<close>.
\<close>

theorem init_control_points_unchecked:
  "\<exists>s. BezierSurface_init cps dl d u v = Inr s \<and>
       control_points s = cps \<and>
       (length cps \<noteq> 4 \<longrightarrow> (\<forall>u' v'. surface_point s u' v' = Inl TypeError))"
  by (simp add: BezierSurface_init_def surface_point_TypeError)

theorem init_control_points_unchecked_witness:
  "length [[0, 0, 0], [1, 2, 0], [2, 2, 0 :: real]] \<noteq> 4 \<and>
   (\<exists>s. BezierSurface_init [[0, 0, 0], [1, 2, 0], [2, 2, 0]] 2 [0, 0, 5] (1 / 2) 1 = Inr s \<and>
        control_points s = [[0, 0, 0], [1, 2, 0], [2, 2, 0]] \<and>
        (\<forall>u' v'. surface_point s u' v' = Inl TypeError))"
proof -
  have l: "length [[0, 0, 0], [1, 2, 0], [2, 2, 0 :: real]] \<noteq> 4" by simp
  from init_control_points_unchecked [of "[[0, 0, 0], [1, 2, 0], [2, 2, 0]]" 2 "[0, 0, 5]" "1 / 2" 1] l
  show ?thesis by blast
qed

text \<open>
  The claim C8 itself fails on the code: with 3 control points, and with 4 control points
  of which the first has 2 coordinates, the constructor returns an object.
\<close>

theorem init_three_control_points_counterexample:
  "BezierSurface_init [[0, 0, 0], [1, 2, 0], [2, 2, 0]] 2 [0, 0, 5] (1 / 2) 1 =
    Inr \<lparr>control_points = [[0, 0, 0], [1, 2, 0], [2, 2, 0]], delta = 2,
         direction_vector = [Fin 0, Fin 0, Fin 1], u0 = 1 / 2, v0 = 1\<rparr> \<and>
   BezierSurface_init [[0, 0], [1, 2, 0], [2, 2, 0], [3, 0, 0]] 2 [0, 0, 5] (1 / 2) 1 =
    Inr \<lparr>control_points = [[0, 0], [1, 2, 0], [2, 2, 0], [3, 0, 0]], delta = 2,
         direction_vector = [Fin 0, Fin 0, Fin 1], u0 = 1 / 2, v0 = 1\<rparr>"
proof -
  have n: "np_linalg_norm [0, 0, 5] \<noteq> 0" by (simp add: norm_0_0_5)
  show ?thesis by (simp add: init_3 [OF n] norm_0_0_5)
qed

section \<open>Rounding to binary64\<close>

lemma expo_bounds:
  assumes "x \<noteq> 0"
  shows "2 powi (expo x) \<le> \<bar>x\<bar>" "\<bar>x\<bar> < 2 powi (expo x + 1)"
proof -
  have "0 < \<bar>x\<bar>" using assms by simp
  then have "2 powr (of_int (expo x)) \<le> \<bar>x\<bar> \<and> \<bar>x\<bar> < 2 powr (of_int (expo x) + 1)"
    using floor_log_eq_powr_iff [of "\<bar>x\<bar>" 2 "expo x"] by (simp add: expo_def)
  moreover have "(2::real) powr (of_int (expo x) + 1) = 2 powr (of_int (expo x + 1))"
    by simp
  ultimately show "2 powi (expo x) \<le> \<bar>x\<bar>" "\<bar>x\<bar> < 2 powi (expo x + 1)"
    by (simp_all only: powr_real_of_int' [of 2, simplified])
qed

lemma expo_unique:
  assumes "2 powi e \<le> \<bar>x\<bar>" "\<bar>x\<bar> < 2 powi (e + 1)"
  shows "expo x = e"
proof -
  have pos: "0 < \<bar>x\<bar>"
    using assms(1) zero_less_power_int [of "2::real" e] by linarith
  have "2 powr (of_int e) \<le> \<bar>x\<bar> \<and> \<bar>x\<bar> < 2 powr (of_int e + 1)"
    using assms powr_real_of_int' [of 2 e] powr_real_of_int' [of 2 "e + 1"] by simp
  then show ?thesis
    using floor_log_eq_powr_iff [of "\<bar>x\<bar>" 2 e] pos by (simp add: expo_def)
qed

lemma quantum_pos: "0 < quantum x"
  by (simp add: quantum_def)

lemma rne_of_int: "rne (of_int k) = k"
  by (simp add: rne_def)

lemma rne_err: "\<bar>of_int (rne t) - t\<bar> \<le> 1 / 2"
  unfolding rne_def Let_def by (auto; linarith)

lemma rne_cases:
  "rne t = \<lfloor>t\<rfloor> \<and> t - of_int \<lfloor>t\<rfloor> \<le> 1 / 2 \<or> rne t = \<lfloor>t\<rfloor> + 1 \<and> 1 / 2 \<le> t - of_int \<lfloor>t\<rfloor>"
  unfolding rne_def Let_def by auto

lemma rne_unique:
  assumes "\<bar>of_int k - t\<bar> < 1 / 2"
  shows "rne t = k"
proof -
  have f: "of_int \<lfloor>t\<rfloor> \<le> t" "t < of_int \<lfloor>t\<rfloor> + 1" by linarith+
  from rne_cases [of t] show ?thesis
  proof
    assume a: "rne t = \<lfloor>t\<rfloor> \<and> t - of_int \<lfloor>t\<rfloor> \<le> 1 / 2"
    have "real_of_int k < real_of_int (\<lfloor>t\<rfloor> + 1)" "real_of_int (\<lfloor>t\<rfloor> - 1) < real_of_int k"
      using assms a f by (simp_all; linarith)+
    then have "k < \<lfloor>t\<rfloor> + 1" "\<lfloor>t\<rfloor> - 1 < k" by (simp_all only: of_int_less_iff)
    with a show ?thesis by linarith
  next
    assume a: "rne t = \<lfloor>t\<rfloor> + 1 \<and> 1 / 2 \<le> t - of_int \<lfloor>t\<rfloor>"
    have "real_of_int k < real_of_int (\<lfloor>t\<rfloor> + 2)" "real_of_int \<lfloor>t\<rfloor> < real_of_int k"
      using assms a f by (simp_all; linarith)+
    then have "k < \<lfloor>t\<rfloor> + 2" "\<lfloor>t\<rfloor> < k" by (simp_all only: of_int_less_iff)
    with a show ?thesis by linarith
  qed
qed

lemma rne_bounds:
  assumes "of_int lo \<le> t" "t \<le> of_int hi"
  shows "lo \<le> rne t \<and> rne t \<le> hi"
proof -
  have "lo \<le> \<lfloor>t\<rfloor>" using assms(1) by (simp add: le_floor_iff)
  moreover have "\<lfloor>t\<rfloor> + 1 \<le> hi \<or> t = of_int hi"
  proof (cases "t = of_int hi")
    case False
    with assms(2) have "t < of_int hi" by simp
    then have "\<lfloor>t\<rfloor> < hi" by (simp add: floor_less_iff)
    then show ?thesis by simp
  qed simp
  ultimately show ?thesis
    using rne_cases [of t] rne_of_int [of hi] by auto
qed

lemma rne_tie: "rne (of_int k + 1 / 2) = (if even k then k else k + 1)"
proof -
  have "\<lfloor>real_of_int k + 1 / 2\<rfloor> = k" by linarith
  then show ?thesis by (simp add: rne_def)
qed

lemma expo_less:
  assumes "x \<noteq> 0" "\<bar>x\<bar> < 2 powi n"
  shows "expo x < n"
proof -
  have "(2::real) powi (expo x) < 2 powi n"
    using expo_bounds(1) [OF assms(1)] assms(2) by linarith
  then show ?thesis
    using power_int_increasing [of n "expo x" "2::real"] by (cases "expo x < n") auto
qed

lemma round64_exact:
  assumes x: "x = of_int k * 2 powi g" and k: "\<bar>k\<bar> < 2 ^ 53" and g: "- 1074 \<le> g"
  shows "round64 x = x"
proof (cases "x = 0")
  case True
  then show ?thesis by (simp add: round64_def)
next
  case False
  define q where "q = max (expo x - 52) (- 1074)"
  have "\<bar>x\<bar> = real_of_int \<bar>k\<bar> * 2 powi g"
    by (simp add: x abs_mult)
  also have "\<dots> < 2 ^ 53 * 2 powi g"
  proof -
    have "real_of_int \<bar>k\<bar> < real_of_int (2 ^ 53)" using k by (simp only: of_int_less_iff)
    then show ?thesis by simp
  qed
  also have "\<dots> = 2 powi (g + 53)"
    by (simp add: power_int_add)
  finally have "expo x < g + 53" by (rule expo_less [OF False])
  with g have qg: "q \<le> g" by (simp add: q_def)
  have "x / 2 powi q = of_int k * 2 powi (g - q)"
    by (simp add: x power_int_diff)
  also have "\<dots> = of_int (k * 2 ^ nat (g - q))"
    using qg by (simp add: power_int_def)
  finally have "rne (x / 2 powi q) = k * 2 ^ nat (g - q)"
    by (simp only: rne_of_int)
  then have "round64 x = of_int (k * 2 ^ nat (g - q)) * 2 powi q"
    using False by (simp add: round64_def quantum_def q_def)
  also have "\<dots> = of_int k * (2 powi (g - q) * 2 powi q)"
    using qg by (simp add: power_int_def)
  also have "\<dots> = x"
    by (simp add: x power_int_diff)
  finally show ?thesis .
qed

lemma round64_repr:
  "\<exists>k g. round64 x = of_int k * 2 powi g \<and> \<bar>k\<bar> < 2 ^ 53 \<and> - 1074 \<le> g"
proof (cases "x = 0")
  case True
  have "round64 x = of_int 0 * 2 powi 0 \<and> \<bar>0::int\<bar> < 2 ^ 53 \<and> - 1074 \<le> (0::int)"
    using True by (simp add: round64_def)
  then show ?thesis by blast
next
  case False
  define q where "q = max (expo x - 52) (- 1074)"
  define k where "k = rne (x / 2 powi q)"
  have q: "- 1074 \<le> q" "expo x + 1 \<le> q + 53" by (simp_all add: q_def)
  have r: "round64 x = of_int k * 2 powi q"
    using False by (simp add: round64_def quantum_def q_def k_def)
  have "\<bar>x\<bar> < 2 powi (expo x + 1)" by (rule expo_bounds(2) [OF False])
  also have "\<dots> \<le> 2 powi (q + 53)"
    using q(2) by (intro power_int_increasing) simp_all
  also have "\<dots> = 2 ^ 53 * 2 powi q"
    by (simp add: power_int_add)
  finally have "\<bar>x\<bar> / 2 powi q < 2 ^ 53"
    by (simp add: field_simps)
  moreover define t where "t = x / 2 powi q"
  ultimately have "\<bar>t\<bar> < 2 ^ 53" by simp
  then have "real_of_int (- (2 ^ 53)) \<le> t" "t \<le> real_of_int (2 ^ 53)"
    by simp_all
  then have "real_of_int (- (2 ^ 53)) \<le> x / 2 powi q" "x / 2 powi q \<le> real_of_int (2 ^ 53)"
    by (simp_all only: t_def)
  from rne_bounds [OF this] have kb: "- (2 ^ 53) \<le> k" "k \<le> 2 ^ 53"
    by (simp_all add: k_def)
  consider (inner) "\<bar>k\<bar> < 2 ^ 53" | (top) "k = 2 ^ 53" | (bot) "k = - (2 ^ 53)"
    using kb by linarith
  then show ?thesis
  proof cases
    case inner
    with r q(1) show ?thesis by blast
  next
    case top
    have "round64 x = of_int (2 ^ 52) * 2 powi (q + 1)"
      by (simp add: r top power_int_add)
    moreover have "\<bar>2 ^ 52 :: int\<bar> < 2 ^ 53" "- 1074 \<le> q + 1" using q(1) by simp_all
    ultimately show ?thesis by blast
  next
    case bot
    have "round64 x = of_int (- (2 ^ 52)) * 2 powi (q + 1)"
      by (simp add: r bot power_int_add)
    moreover have "\<bar>- (2 ^ 52) :: int\<bar> < 2 ^ 53" "- 1074 \<le> q + 1" using q(1) by simp_all
    ultimately show ?thesis by blast
  qed
qed

lemma round64_idem: "round64 (round64 x) = round64 x"
  using round64_repr [of x] round64_exact by blast

lemma round64_err: "\<bar>round64 x - x\<bar> \<le> quantum x / 2"
proof (cases "x = 0")
  case True
  then show ?thesis using quantum_pos [of x] by (simp add: round64_def)
next
  case False
  define k where "k = rne (x / quantum x)"
  have "\<bar>real_of_int k - x / quantum x\<bar> * quantum x \<le> 1 / 2 * quantum x"
    unfolding k_def using rne_err [of "x / quantum x"] quantum_pos [of x]
    by (intro mult_right_mono) simp_all
  moreover have "real_of_int k * quantum x - x = (real_of_int k - x / quantum x) * quantum x"
    using quantum_pos [of x] by (simp add: field_simps)
  then have "\<bar>real_of_int k * quantum x - x\<bar> = \<bar>real_of_int k - x / quantum x\<bar> * quantum x"
    using quantum_pos [of x] by (simp only: abs_mult abs_of_pos)
  ultimately show ?thesis using False by (simp add: round64_def k_def)
qed

lemma quantum_le:
  assumes "x \<noteq> 0"
  shows "quantum x \<le> 2 powi (- 52) * \<bar>x\<bar> + 2 powi (- 1074)"
proof (cases "- 1074 \<le> expo x - 52")
  case True
  then have "max (expo x - 52) (- 1074) = expo x - 52" by simp
  then have "quantum x = 2 powi (expo x - 52)" by (simp only: quantum_def)
  also have "\<dots> = 2 powi (- 52) * 2 powi (expo x)"
    by (simp add: power_int_diff)
  also have "\<dots> \<le> 2 powi (- 52) * \<bar>x\<bar>"
    using expo_bounds(1) [OF assms] by (intro mult_left_mono) simp_all
  finally show ?thesis by simp
next
  case False
  then have "max (expo x - 52) (- 1074) = - 1074" by simp
  then have "quantum x = 2 powi (- 1074)" by (simp only: quantum_def)
  then show ?thesis by simp
qed

lemma round64_rel_err:
  "\<bar>round64 x - x\<bar> \<le> 2 powi (- 53) * \<bar>x\<bar> + 2 powi (- 1075)"
proof (cases "x = 0")
  case True
  then show ?thesis by (simp add: round64_def)
next
  case False
  have "quantum x / 2 \<le> (2 powi (- 52) * \<bar>x\<bar> + 2 powi (- 1074)) / 2"
    using quantum_le [OF False] by simp
  also have "\<dots> = 2 powi (- 53) * \<bar>x\<bar> + 2 powi (- 1075)"
    by simp
  finally show ?thesis using round64_err [of x] by linarith
qed

lemma quantum_eval:
  assumes "2 powi e \<le> \<bar>x\<bar>" "\<bar>x\<bar> < 2 powi (e + 1)" "- 1022 \<le> e"
  shows "quantum x = 2 powi (e - 52)"
proof -
  have "expo x = e" by (rule expo_unique [OF assms(1,2)])
  with assms(3) have "max (expo x - 52) (- 1074) = e - 52" by simp
  then show ?thesis by (simp only: quantum_def)
qed

lemma round64_eval:
  assumes "2 powi e \<le> \<bar>x\<bar>" "\<bar>x\<bar> < 2 powi (e + 1)" "- 1022 \<le> e"
    and "\<bar>of_int k - x / 2 powi (e - 52)\<bar> < 1 / 2"
  shows "round64 x = of_int k * 2 powi (e - 52)"
proof -
  have "0 < (2::real) powi e" by simp
  with assms(1) have "0 < \<bar>x\<bar>" by linarith
  then have "x \<noteq> 0" by simp
  then show ?thesis
    by (simp add: round64_def quantum_eval [OF assms(1-3)] rne_unique [OF assms(4)])
qed

lemma round64_eval_tie:
  assumes "2 powi e \<le> \<bar>x\<bar>" "\<bar>x\<bar> < 2 powi (e + 1)" "- 1022 \<le> e"
    and "x / 2 powi (e - 52) = of_int k + 1 / 2"
  shows "round64 x = of_int (if even k then k else k + 1) * 2 powi (e - 52)"
proof -
  have "0 < (2::real) powi e" by simp
  with assms(1) have "0 < \<bar>x\<bar>" by linarith
  then have "x \<noteq> 0" by simp
  then show ?thesis
    by (simp only: round64_def quantum_eval [OF assms(1-3)] assms(4) rne_tie if_False)
qed

subsection \<open>The float of an exact result\<close>

lemma fl_Fin_iff: "fl x = Fin y \<longleftrightarrow> y = round64 x \<and> \<bar>y\<bar> < 2 ^ 1024"
proof -
  define N :: real where "N = 2 ^ 1024"
  have "0 < N" by (simp add: N_def)
  have "fl x = (if N \<le> round64 x then PInf else if round64 x \<le> - N then NInf else Fin (round64 x))"
    by (simp add: fl_def Let_def N_def)
  then have "fl x = Fin y \<longleftrightarrow> y = round64 x \<and> \<bar>y\<bar> < N"
    using \<open>0 < N\<close> by (auto simp add: abs_less_iff)
  then show ?thesis by (simp only: N_def)
qed

lemma fl_idem:
  assumes "fl x = Fin y"
  shows "fl y = Fin y"
proof -
  note h = iffD1 [OF fl_Fin_iff assms]
  have "round64 y = y" unfolding conjunct1 [OF h] by (rule round64_idem)
  with conjunct2 [OF h] show ?thesis by (intro iffD2 [OF fl_Fin_iff] conjI) simp_all
qed

lemma fl_exact:
  assumes "x = of_int k * 2 powi g" "\<bar>k\<bar> < 2 ^ 53" "- 1074 \<le> g" "g \<le> 971"
  shows "fl x = Fin x"
proof -
  have "\<bar>x\<bar> = real_of_int \<bar>k\<bar> * 2 powi g" by (simp add: assms(1) abs_mult)
  also have "\<dots> < 2 ^ 53 * 2 powi g"
  proof -
    have "real_of_int \<bar>k\<bar> < real_of_int (2 ^ 53)" using assms(2) by (simp only: of_int_less_iff)
    then show ?thesis by simp
  qed
  also have "\<dots> = 2 powi (g + 53)" by (simp add: power_int_add)
  also have "\<dots> \<le> 2 powi 1024" using assms(4) by (intro power_int_increasing) simp_all
  finally have "\<bar>x\<bar> < 2 ^ 1024" by simp
  then show ?thesis
    by (simp add: fl_Fin_iff round64_exact [OF assms(1-3)])
qed

lemma fl_of_int: "\<bar>k\<bar> < 2 ^ 53 \<Longrightarrow> fl (of_int k) = Fin (of_int k)"
  by (rule fl_exact [of _ k 0]) simp_all

lemma fl_0: "fl 0 = Fin 0"
  using fl_of_int [of 0] by simp

lemma fl_1: "fl 1 = Fin 1"
  using fl_of_int [of 1] by simp

lemma fl_bounded:
  assumes "\<bar>x\<bar> \<le> 2 ^ 1023"
  shows "fl x = Fin (round64 x)"
proof -
  have "\<bar>round64 x\<bar> \<le> \<bar>x\<bar> + \<bar>round64 x - x\<bar>" by simp
  also have "\<dots> \<le> \<bar>x\<bar> + (2 powi (- 53) * \<bar>x\<bar> + 2 powi (- 1075))"
    using round64_rel_err [of x] by simp
  also have "\<dots> \<le> 2 ^ 1023 + (2 powi (- 53) * 2 ^ 1023 + 2 powi (- 1075))"
    using assms by (intro add_mono mult_left_mono) simp_all
  also have "\<dots> < 2 ^ 1024" by simp
  finally show ?thesis by (simp add: fl_Fin_iff)
qed

lemma eps64_bounds: "0 < eps64" "eps64 \<le> 1 / 1000"
  by (simp_all add: eps64_def)

lemma eta64_bounds: "0 < eta64" "eta64 \<le> eps64" "eta64 \<le> 1"
  by (simp_all add: eta64_def eps64_def)

lemma fl_err:
  assumes "\<bar>x\<bar> \<le> 2 ^ 1023"
  shows "\<exists>y. fl x = Fin y \<and> \<bar>y - x\<bar> \<le> eps64 * \<bar>x\<bar> + eta64"
  using fl_bounded [OF assms] round64_rel_err [of x] by (simp add: eps64_def eta64_def)

lemma eps_mult_le:
  assumes "0 \<le> X"
  shows "eps64 * X \<le> X / 1000"
  using mult_right_mono [OF eps64_bounds(2) assms] by simp

lemma f64_add_commute: "f64_add a b = f64_add b a"
  by (cases a; cases b) (simp_all add: add.commute)


subsection \<open>Particular floats\<close>



lemma fl_small_ints: "fl 2 = Fin 2" "fl 3 = Fin 3"
  using fl_of_int [of 2] fl_of_int [of 3] by simp_all

lemma fl_half: "fl (1 / 2) = Fin (1 / 2)" "fl (1 - 1 / 2) = Fin (1 / 2)"
proof -
  show "fl (1 / 2) = Fin (1 / 2)"
    by (rule fl_exact [of _ 1 "- 1"]) simp_all
  then show "fl (1 - 1 / 2) = Fin (1 / 2)" by simp
qed

lemma fl_2_53: "fl (2 ^ 53) = Fin (2 ^ 53)"
  by (rule fl_exact [of _ 1 53]) simp_all


lemma tiny_floats:
  "fl (2 powi (- 60)) = Fin (2 powi (- 60))"
  "fl (2 * 2 powi (- 60)) = Fin (2 * 2 powi (- 60))"
  "fl (3 * 2 powi (- 60)) = Fin (3 * 2 powi (- 60))"
proof -
  show "fl (2 powi (- 60)) = Fin (2 powi (- 60))"
    by (rule fl_exact [of _ 1 "- 60"]) simp_all
  show "fl (2 * 2 powi (- 60)) = Fin (2 * 2 powi (- 60))"
    by (rule fl_exact [of _ 2 "- 60"]) simp_all
  show "fl (3 * 2 powi (- 60)) = Fin (3 * 2 powi (- 60))"
    by (rule fl_exact [of _ 3 "- 60"]) simp_all
qed

lemma fl_one_minus_tiny: "fl (1 - 2 powi (- 60)) = Fin 1"
proof -
  have "round64 (1 - 2 powi (- 60)) = of_int (2 ^ 53) * 2 powi (- 1 - 52)"
    by (rule round64_eval) simp_all
  then have "round64 (1 - 2 powi (- 60)) = 1" by simp
  then show ?thesis by (simp add: fl_Fin_iff)
qed

lemma fl_2_53_plus_1: "fl (2 ^ 53 + 1) = Fin (2 ^ 53)"
proof -
  have "round64 (2 ^ 53 + 1) = of_int (if even (2 ^ 52 :: int) then 2 ^ 52 else 2 ^ 52 + 1) * 2 powi (53 - 52)"
    by (rule round64_eval_tie) simp_all
  then have "round64 (2 ^ 53 + 1) = 2 ^ 53" by simp
  then show ?thesis by (simp add: fl_Fin_iff)
qed

lemma fl_2_1200: "fl (2 ^ 1200) = PInf"
proof -
  have "round64 (2 ^ 1200) = 2 ^ 1200"
    by (rule round64_exact [of _ 1 1200]) simp_all
  then show ?thesis by (simp add: fl_def)
qed


section \<open>The curve in binary64\<close>

lemma interpolate_f64_3:
  "interpolate_f64 u [a, b, c] [x, y, z] = Inr [lerp_f64 u a x, lerp_f64 u b y, lerp_f64 u c z]"
  by (simp add: interpolate_f64_def np_add_f64_def np_multiply_f64_def broadcast_def lerp_f64_def)

lemma bezier_point_f64_3:
  "bezier_point_f64 [x0, y0, z0] [x1, y1, z1] [x2, y2, z2] [x3, y3, z3] u =
   Inr [casteljau_f64 x0 x1 x2 x3 u, casteljau_f64 y0 y1 y2 y3 u, casteljau_f64 z0 z1 z2 z3 u]"
  by (simp add: bezier_point_f64_def interpolate_f64_3 casteljau_f64_def)

lemma lerp_f64_eval:
  assumes "fl (1 - u) = Fin w" "fl (w * a) = Fin wa" "fl (u * b) = Fin ub" "fl (wa + ub) = Fin r"
  shows "lerp_f64 u (Fin a) (Fin b) = Fin r"
  using assms by (simp add: lerp_f64_def f64_sub_def)

lemma lerp_f64_zero:
  assumes "fl (1 - u) = Fin w"
  shows "lerp_f64 u (Fin 0) (Fin 0) = Fin 0"
  by (rule lerp_f64_eval [OF assms, of _ 0 _ 0]) (simp_all add: fl_0)

lemma casteljau_f64_zero:
  assumes "fl (1 - u) = Fin w"
  shows "casteljau_f64 (Fin 0) (Fin 0) (Fin 0) (Fin 0) u = Fin 0"
  by (simp only: casteljau_f64_def lerp_f64_zero [OF assms])

lemma lerp_f64_at_0:
  assumes "fl a = Fin a"
  shows "lerp_f64 0 (Fin a) (Fin b) = Fin a"
  by (rule lerp_f64_eval [of _ 1 _ a _ 0]) (simp_all add: fl_0 fl_1 assms)

lemma lerp_f64_at_1:
  assumes "fl b = Fin b"
  shows "lerp_f64 1 (Fin a) (Fin b) = Fin b"
  by (rule lerp_f64_eval [of _ 0 _ 0 _ b]) (simp_all add: fl_0 assms)

lemma casteljau_f64_at_0:
  assumes "fl a = Fin a" "fl b = Fin b" "fl c = Fin c"
  shows "casteljau_f64 (Fin a) (Fin b) (Fin c) (Fin d) 0 = Fin a"
  by (simp only: casteljau_f64_def lerp_f64_at_0 [OF assms(1)] lerp_f64_at_0 [OF assms(2)]
      lerp_f64_at_0 [OF assms(3)])

lemma casteljau_f64_at_1:
  assumes "fl b = Fin b" "fl c = Fin c" "fl d = Fin d"
  shows "casteljau_f64 (Fin a) (Fin b) (Fin c) (Fin d) 1 = Fin d"
  by (simp only: casteljau_f64_def lerp_f64_at_1 [OF assms(1)] lerp_f64_at_1 [OF assms(2)]
      lerp_f64_at_1 [OF assms(3)])

lemma bezier_point_f64_scenario_at_1:
  "bezier_point_f64 [Fin 0, Fin 0, Fin 0] [Fin 1, Fin 2, Fin 0] [Fin 2, Fin 2, Fin 0]
     [Fin 3, Fin 0, Fin 0] 1 = Inr [Fin 3, Fin 0, Fin 0]"
  by (simp only: bezier_point_f64_3 casteljau_f64_at_1 [OF fl_1 fl_small_ints]
      casteljau_f64_at_1 [OF fl_small_ints(1) fl_small_ints(1) fl_0]
      casteljau_f64_at_1 [OF fl_0 fl_0 fl_0])

lemma lerp_f64_swap:
  assumes "fl u = Fin u" and "fl (1 - u) = Fin (1 - u)"
  shows "lerp_f64 (1 - u) a b = lerp_f64 u b a"
proof -
  have "f64_sub (Fin 1) (Fin u) = Fin (1 - u)"
    using assms(2) by (simp add: f64_sub_def)
  moreover have "f64_sub (Fin 1) (Fin (1 - u)) = Fin u"
    using assms(1) by (simp add: f64_sub_def)
  ultimately show ?thesis
    by (simp only: lerp_f64_def f64_add_commute [of "f64_mul (Fin u) a"])
qed

lemma casteljau_f64_reverse:
  assumes "fl u = Fin u" and "fl (1 - u) = Fin (1 - u)"
  shows "casteljau_f64 d c b a (1 - u) = casteljau_f64 a b c d u"
  by (simp only: casteljau_f64_def lerp_f64_swap [OF assms])

lemma casteljau_f64_0100:
  assumes w: "fl (1 - u) = Fin 1" and u1: "fl u = Fin u"
    and u2: "fl (2 * u) = Fin (2 * u)" and u3: "fl (3 * u) = Fin (3 * u)"
  shows "casteljau_f64 (Fin 0) (Fin 1) (Fin 0) (Fin 0) u = Fin (3 * u)"
proof -
  have p01: "lerp_f64 u (Fin 0) (Fin 1) = Fin u"
    by (rule lerp_f64_eval [OF w, of _ 0 _ u]) (simp_all add: fl_0 u1)
  have p12: "lerp_f64 u (Fin 1) (Fin 0) = Fin 1"
    by (rule lerp_f64_eval [OF w, of _ 1 _ 0]) (simp_all add: fl_0 fl_1)
  have p23: "lerp_f64 u (Fin 0) (Fin 0) = Fin 0"
    by (rule lerp_f64_zero [OF w])
  have p012: "lerp_f64 u (Fin u) (Fin 1) = Fin (2 * u)"
    by (rule lerp_f64_eval [OF w, of _ u _ u]) (simp_all add: u1 u2)
  have p123: "lerp_f64 u (Fin 1) (Fin 0) = Fin 1"
    by (rule p12)
  have "lerp_f64 u (Fin (2 * u)) (Fin 1) = Fin (3 * u)"
    by (rule lerp_f64_eval [OF w, of _ "2 * u" _ u]) (simp_all add: u1 u2 u3)
  then show ?thesis
    by (simp only: casteljau_f64_def p01 p12 p23 p012)
qed

lemma casteljau_f64_0100_tiny:
  "casteljau_f64 (Fin 0) (Fin 1) (Fin 0) (Fin 0) (2 powi (- 60)) = Fin (3 * 2 powi (- 60))"
  by (rule casteljau_f64_0100 [OF fl_one_minus_tiny tiny_floats])

subsection \<open>The rounding error of the three levels\<close>

lemma growth_ge_1: "1 \<le> \<bar>1 - u\<bar> + \<bar>u :: real\<bar>"
  by linarith

lemma lerp_f64_err:
  assumes a: "\<bar>a\<bar> \<le> M" and b: "\<bar>b\<bar> \<le> M" and g: "g = \<bar>1 - u\<bar> + \<bar>u\<bar>"
    and K: "g * M \<le> K" "K \<le> 2 ^ 1020" and gb: "g \<le> 2 ^ 1020"
  shows "\<exists>r. lerp_f64 u (Fin a) (Fin b) = Fin r \<and>
             \<bar>r - ((1 - u) * a + u * b)\<bar> \<le> 11 * (eps64 * K) + 4 * eta64"
proof -
  define E where "E = eps64 * K"
  note e = eps64_bounds and h = eta64_bounds
  have M0: "0 \<le> M" using a by linarith
  have g1: "1 \<le> g" unfolding g by (rule growth_ge_1)
  have "1 * M \<le> g * M" using g1 M0 by (intro mult_right_mono) simp_all
  then have MK: "M \<le> K" using K(1) by simp
  have K0: "0 \<le> K" using MK M0 by linarith
  have E0: "0 \<le> E" "E \<le> K / 1000"
    using e K0 eps_mult_le [OF K0] by (simp_all add: E_def)
  have big: "(2::real) ^ 1020 * 8 = 2 ^ 1023" "(1::real) \<le> 2 ^ 1020" by simp_all
  have u1: "\<bar>1 - u\<bar> \<le> g" and u2: "\<bar>u\<bar> \<le> g" unfolding g by simp_all
  \<comment> \<open>the weight \<open>1 - u\<close>\<close>
  have "\<bar>1 - u\<bar> \<le> 2 ^ 1023" using u1 gb big by linarith
  from fl_err [OF this] obtain w where w: "fl (1 - u) = Fin w"
    and we: "\<bar>w - (1 - u)\<bar> \<le> eps64 * \<bar>1 - u\<bar> + eta64" by blast
  have eg: "eps64 * \<bar>1 - u\<bar> \<le> eps64 * g"
    using e(1) u1 by (intro mult_left_mono) simp_all
  have eg': "eps64 * g \<le> g / 1000" using eps_mult_le [of g] g1 by simp
  have w2: "\<bar>w - (1 - u)\<bar> \<le> eps64 * g + eta64" using we eg by linarith
  have wb: "\<bar>w\<bar> \<le> 3 * g" using w2 eg' u1 g1 h by linarith
  \<comment> \<open>the two products\<close>
  have "\<bar>w * a\<bar> \<le> (3 * g) * M"
    unfolding abs_mult using wb a by (intro mult_mono) simp_all
  then have wa: "\<bar>w * a\<bar> \<le> 3 * K" using K(1) by simp
  then have "\<bar>w * a\<bar> \<le> 2 ^ 1023" using K(2) big by linarith
  from fl_err [OF this] obtain t1 where t1: "fl (w * a) = Fin t1"
    and t1e: "\<bar>t1 - w * a\<bar> \<le> eps64 * \<bar>w * a\<bar> + eta64" by blast
  have "eps64 * \<bar>w * a\<bar> \<le> eps64 * (3 * K)"
    using e(1) wa by (intro mult_left_mono) simp_all
  with t1e have t1e': "\<bar>t1 - w * a\<bar> \<le> 3 * E + eta64" by (simp add: E_def)
  have "\<bar>u * b\<bar> \<le> g * M"
    unfolding abs_mult using u2 b by (intro mult_mono) simp_all
  then have ub: "\<bar>u * b\<bar> \<le> K" using K(1) by simp
  then have "\<bar>u * b\<bar> \<le> 2 ^ 1023" using K(2) big K0 by linarith
  from fl_err [OF this] obtain t2 where t2: "fl (u * b) = Fin t2"
    and t2e: "\<bar>t2 - u * b\<bar> \<le> eps64 * \<bar>u * b\<bar> + eta64" by blast
  have "eps64 * \<bar>u * b\<bar> \<le> eps64 * K"
    using e(1) ub by (intro mult_left_mono) simp_all
  with t2e have t2e': "\<bar>t2 - u * b\<bar> \<le> E + eta64" by (simp add: E_def)
  \<comment> \<open>the error of the weight, carried by \<open>a\<close>\<close>
  have "\<bar>w * a - (1 - u) * a\<bar> = \<bar>w - (1 - u)\<bar> * \<bar>a\<bar>"
    by (simp add: abs_mult [symmetric] left_diff_distrib)
  also have "\<dots> \<le> (eps64 * g + eta64) * M"
    using w2 a e(1) g1 h(1) by (intro mult_mono) simp_all
  also have "\<dots> = eps64 * (g * M) + eta64 * M" by (simp add: algebra_simps)
  also have "\<dots> \<le> eps64 * K + eps64 * K"
  proof (rule add_mono)
    show "eps64 * (g * M) \<le> eps64 * K" using e(1) K(1) by (intro mult_left_mono) simp_all
    have "eta64 * M \<le> eps64 * M" using h(2) M0 by (intro mult_right_mono) simp_all
    also have "\<dots> \<le> eps64 * K" using e(1) MK by (intro mult_left_mono) simp_all
    finally show "eta64 * M \<le> eps64 * K" .
  qed
  finally have wae: "\<bar>w * a - (1 - u) * a\<bar> \<le> 2 * E" unfolding E_def by linarith
  \<comment> \<open>the sum\<close>
  have s: "\<bar>t1 + t2\<bar> \<le> 5 * K + 2 * eta64"
    using t1e' t2e' wa ub E0 by linarith
  then have "\<bar>t1 + t2\<bar> \<le> 2 ^ 1023" using K(2) big h by linarith
  from fl_err [OF this] obtain r where r: "fl (t1 + t2) = Fin r"
    and re: "\<bar>r - (t1 + t2)\<bar> \<le> eps64 * \<bar>t1 + t2\<bar> + eta64" by blast
  have p1: "eps64 * \<bar>t1 + t2\<bar> \<le> eps64 * (5 * K + 2 * eta64)"
    using e(1) s by (intro mult_left_mono) simp_all
  have p2: "eps64 * (5 * K + 2 * eta64) = 5 * E + eps64 * (2 * eta64)"
    by (simp add: E_def algebra_simps)
  have p3: "eps64 * (2 * eta64) \<le> (2 * eta64) / 1000"
    by (rule eps_mult_le) (use h in simp)
  have re': "\<bar>r - (t1 + t2)\<bar> \<le> 5 * E + 2 * eta64"
    using re p1 p2 p3 h by linarith
  have "lerp_f64 u (Fin a) (Fin b) = Fin r"
    by (rule lerp_f64_eval [OF w t1 t2 r])
  moreover have "\<bar>r - ((1 - u) * a + u * b)\<bar> \<le> 11 * E + 4 * eta64"
    using re' t1e' t2e' wae by linarith
  ultimately show ?thesis unfolding E_def by blast
qed

lemma lerp_abs_le:
  fixes u :: real
  assumes "\<bar>x\<bar> \<le> D" "\<bar>y\<bar> \<le> D"
  shows "\<bar>(1 - u) * x + u * y\<bar> \<le> (\<bar>1 - u\<bar> + \<bar>u\<bar>) * D"
proof -
  have p: "\<bar>(1 - u) * x\<bar> \<le> \<bar>1 - u\<bar> * D" "\<bar>u * y\<bar> \<le> \<bar>u\<bar> * D"
    unfolding abs_mult using assms by (intro mult_left_mono; simp)+
  have "\<bar>(1 - u) * x + u * y\<bar> \<le> \<bar>(1 - u) * x\<bar> + \<bar>u * y\<bar>"
    by (rule abs_triangle_ineq)
  also have "\<dots> \<le> \<bar>1 - u\<bar> * D + \<bar>u\<bar> * D" using p by linarith
  also have "\<dots> = (\<bar>1 - u\<bar> + \<bar>u\<bar>) * D" by (simp only: distrib_right)
  finally show ?thesis .
qed

lemma lerp_diff:
  fixes u :: real
  shows "((1 - u) * x' + u * y') - ((1 - u) * x + u * y) = (1 - u) * (x' - x) + u * (y' - y)"
  by (simp add: algebra_simps)

lemma lerp_f64_err_step:
  assumes g: "g = \<bar>1 - u\<bar> + \<bar>u\<bar>"
    and x: "\<bar>x' - x\<bar> \<le> D" "\<bar>x\<bar> \<le> M" and y: "\<bar>y' - y\<bar> \<le> D" "\<bar>y\<bar> \<le> M"
    and B: "M + D \<le> B" and K: "g * B \<le> K" "K \<le> 2 ^ 1020" and gb: "g \<le> 2 ^ 1020"
  shows "\<exists>r. lerp_f64 u (Fin x') (Fin y') = Fin r \<and>
     \<bar>r - ((1 - u) * x + u * y)\<bar> \<le> g * D + (11 * (eps64 * K) + 4 * eta64) \<and>
     \<bar>(1 - u) * x + u * y\<bar> \<le> g * M"
proof -
  have "\<bar>x'\<bar> \<le> B" "\<bar>y'\<bar> \<le> B" using x y B by linarith+
  from lerp_f64_err [OF this g K gb] obtain r where r: "lerp_f64 u (Fin x') (Fin y') = Fin r"
    and re: "\<bar>r - ((1 - u) * x' + u * y')\<bar> \<le> 11 * (eps64 * K) + 4 * eta64" by blast
  have "\<bar>((1 - u) * x' + u * y') - ((1 - u) * x + u * y)\<bar> \<le> g * D"
    unfolding lerp_diff g by (rule lerp_abs_le [OF x(1) y(1)])
  with re have "\<bar>r - ((1 - u) * x + u * y)\<bar> \<le> g * D + (11 * (eps64 * K) + 4 * eta64)"
    by linarith
  moreover have "\<bar>(1 - u) * x + u * y\<bar> \<le> g * M"
    unfolding g by (rule lerp_abs_le [OF x(2) y(2)])
  ultimately show ?thesis using r by blast
qed

lemma casteljau_f64_err:
  assumes a: "\<bar>a\<bar> \<le> M" and b: "\<bar>b\<bar> \<le> M" and c: "\<bar>c\<bar> \<le> M" and d: "\<bar>d\<bar> \<le> M"
    and g: "g = \<bar>1 - u\<bar> + \<bar>u\<bar>" and gb: "g \<le> 2 ^ 500" and P: "g * (g * (g * M)) \<le> 2 ^ 1000"
  shows "\<exists>r. casteljau_f64 (Fin a) (Fin b) (Fin c) (Fin d) u = Fin r \<and>
     \<bar>r - casteljau a b c d u\<bar> \<le> 35 * (eps64 * (g * (g * (g * M)))) + 14 * (g * (g * eta64))"
proof -
  note e = eps64_bounds and h = eta64_bounds
  have M0: "0 \<le> M" using a by linarith
  have g1: "1 \<le> g" unfolding g by (rule growth_ge_1)
  define P1 P2 P3 where "P1 = g * M" and "P2 = g * P1" and "P3 = g * P2"
  define H1 H2 where "H1 = g * eta64" and "H2 = g * H1"
  define E1 E2 E3 where "E1 = eps64 * P1" and "E2 = eps64 * P2" and "E3 = eps64 * P3"
  have P10: "M \<le> P1" unfolding P1_def using mult_right_mono [OF g1 M0] by simp
  then have P1n: "0 \<le> P1" using M0 by linarith
  have P20: "P1 \<le> P2" unfolding P2_def using mult_right_mono [OF g1 P1n] by simp
  then have P2n: "0 \<le> P2" using P1n by linarith
  have P30: "P2 \<le> P3" unfolding P3_def using mult_right_mono [OF g1 P2n] by simp
  then have P3n: "0 \<le> P3" using P2n by linarith
  have P3b: "P3 \<le> 2 ^ 1000" using P by (simp add: P3_def P2_def P1_def)
  have H10: "eta64 \<le> H1" unfolding H1_def using mult_right_mono [OF g1, of eta64] h(1) by simp
  then have H1n: "0 \<le> H1" using h(1) by linarith
  have H20: "H1 \<le> H2" unfolding H2_def using mult_right_mono [OF g1 H1n] by simp
  then have H2n: "0 \<le> H2" using H1n by linarith
  have "g * g \<le> 2 ^ 500 * 2 ^ 500" using gb g1 by (intro mult_mono) simp_all
  then have "g * g * eta64 \<le> 2 ^ 500 * 2 ^ 500 * eta64"
    using h(1) by (intro mult_right_mono) simp_all
  also have "\<dots> \<le> 1" by (simp add: eta64_def)
  finally have H2b: "H2 \<le> 1" by (simp add: H2_def H1_def algebra_simps)
  have E: "0 \<le> E1" "E1 \<le> P1 / 1000" "0 \<le> E2" "E2 \<le> P2 / 1000" "0 \<le> E3" "E3 \<le> P3 / 1000"
    using e(1) P1n P2n P3n eps_mult_le [OF P1n] eps_mult_le [OF P2n] eps_mult_le [OF P3n]
    by (simp_all add: E1_def E2_def E3_def)
  have gE: "g * E1 = E2" "g * E2 = E3"
    by (simp_all add: E1_def E2_def E3_def P2_def P3_def algebra_simps)
  have big: "(2::real) ^ 1000 * 1048576 = 2 ^ 1020" "(1::real) \<le> 2 ^ 1000"
    "(2::real) ^ 500 \<le> 2 ^ 1020" by simp_all
  have gb': "g \<le> 2 ^ 1020" using gb big(3) by linarith
  \<comment> \<open>first level\<close>
  have z: "\<bar>a - a\<bar> \<le> 0" "\<bar>b - b\<bar> \<le> 0" "\<bar>c - c\<bar> \<le> 0" "\<bar>d - d\<bar> \<le> 0" by simp_all
  have B0: "M + 0 \<le> M" by simp
  have K1: "g * M \<le> P1" "P1 \<le> 2 ^ 1020"
    using P20 P30 P3b big by (simp_all add: P1_def)
  from lerp_f64_err_step [OF g z(1) a z(2) b B0 K1 gb'] obtain ab where
    ab: "lerp_f64 u (Fin a) (Fin b) = Fin ab"
    and abe: "\<bar>ab - ((1 - u) * a + u * b)\<bar> \<le> g * 0 + (11 * (eps64 * P1) + 4 * eta64)"
    and abm: "\<bar>(1 - u) * a + u * b\<bar> \<le> g * M" by blast
  from lerp_f64_err_step [OF g z(2) b z(3) c B0 K1 gb'] obtain bc where
    bc: "lerp_f64 u (Fin b) (Fin c) = Fin bc"
    and bce: "\<bar>bc - ((1 - u) * b + u * c)\<bar> \<le> g * 0 + (11 * (eps64 * P1) + 4 * eta64)"
    and bcm: "\<bar>(1 - u) * b + u * c\<bar> \<le> g * M" by blast
  from lerp_f64_err_step [OF g z(3) c z(4) d B0 K1 gb'] obtain cd where
    cd: "lerp_f64 u (Fin c) (Fin d) = Fin cd"
    and cde: "\<bar>cd - ((1 - u) * c + u * d)\<bar> \<le> g * 0 + (11 * (eps64 * P1) + 4 * eta64)"
    and cdm: "\<bar>(1 - u) * c + u * d\<bar> \<le> g * M" by blast
  define D1 where "D1 = 11 * E1 + 4 * eta64"
  have abe1: "\<bar>ab - ((1 - u) * a + u * b)\<bar> \<le> D1"
    and bce1: "\<bar>bc - ((1 - u) * b + u * c)\<bar> \<le> D1"
    and cde1: "\<bar>cd - ((1 - u) * c + u * d)\<bar> \<le> D1"
    using abe bce cde by (simp_all add: D1_def E1_def)
  note abm1 = abm [folded P1_def] and bcm1 = bcm [folded P1_def] and cdm1 = cdm [folded P1_def]
  \<comment> \<open>second level\<close>
  define K2 where "K2 = P2 + 11 * E2 + 4 * H1"
  have gD1: "g * D1 = 11 * E2 + 4 * H1"
    by (simp add: D1_def gE [symmetric] H1_def algebra_simps)
  have B1: "P1 + D1 \<le> P1 + D1" by simp
  have K2a: "g * (P1 + D1) \<le> K2"
    using gD1 by (simp add: K2_def P2_def distrib_left)
  have K2b: "K2 \<le> 2 ^ 1020"
    using P30 P3b E(4) H20 H2b big by (simp add: K2_def)
  from lerp_f64_err_step [OF g abe1 abm1 bce1 bcm1 B1 K2a K2b gb'] obtain abc where
    abc: "lerp_f64 u (Fin ab) (Fin bc) = Fin abc"
    and abce: "\<bar>abc - ((1 - u) * ((1 - u) * a + u * b) + u * ((1 - u) * b + u * c))\<bar>
        \<le> g * D1 + (11 * (eps64 * K2) + 4 * eta64)"
    and abcm: "\<bar>(1 - u) * ((1 - u) * a + u * b) + u * ((1 - u) * b + u * c)\<bar> \<le> g * P1" by blast
  from lerp_f64_err_step [OF g bce1 bcm1 cde1 cdm1 B1 K2a K2b gb'] obtain bcd where
    bcd: "lerp_f64 u (Fin bc) (Fin cd) = Fin bcd"
    and bcde: "\<bar>bcd - ((1 - u) * ((1 - u) * b + u * c) + u * ((1 - u) * c + u * d))\<bar>
        \<le> g * D1 + (11 * (eps64 * K2) + 4 * eta64)"
    and bcdm: "\<bar>(1 - u) * ((1 - u) * b + u * c) + u * ((1 - u) * c + u * d)\<bar> \<le> g * P1" by blast
  define x2 where "x2 = eps64 * (11 * E2 + 4 * H1)"
  have "x2 \<le> (11 * E2 + 4 * H1) / 1000"
    unfolding x2_def by (rule eps_mult_le) (use E(3) H1n in simp)
  then have "1000 * x2 \<le> 11 * E2 + 4 * H1" by simp
  moreover have "eps64 * K2 = E2 + x2"
    by (simp add: x2_def K2_def E2_def algebra_simps)
  ultimately have eK2: "11 * (eps64 * K2) \<le> 12 * E2 + H1" using E(3) H1n by linarith
  define D2 where "D2 = 23 * E2 + 9 * H1"
  have abce2: "\<bar>abc - ((1 - u) * ((1 - u) * a + u * b) + u * ((1 - u) * b + u * c))\<bar> \<le> D2"
    and bcde2: "\<bar>bcd - ((1 - u) * ((1 - u) * b + u * c) + u * ((1 - u) * c + u * d))\<bar> \<le> D2"
    using abce bcde gD1 eK2 H10 by (simp_all add: D2_def)
  note abcm2 = abcm [folded P2_def] and bcdm2 = bcdm [folded P2_def]
  \<comment> \<open>third level\<close>
  define K3 where "K3 = P3 + 23 * E3 + 9 * H2"
  have gD2: "g * D2 = 23 * E3 + 9 * H2"
    by (simp add: D2_def gE [symmetric] H2_def algebra_simps)
  have B2: "P2 + D2 \<le> P2 + D2" by simp
  have K3a: "g * (P2 + D2) \<le> K3"
    using gD2 by (simp add: K3_def P3_def distrib_left)
  have K3b: "K3 \<le> 2 ^ 1020"
    using P3b E(6) H2b big by (simp add: K3_def)
  from lerp_f64_err_step [OF g abce2 abcm2 bcde2 bcdm2 B2 K3a K3b gb'] obtain r where
    r: "lerp_f64 u (Fin abc) (Fin bcd) = Fin r"
    and re: "\<bar>r - casteljau a b c d u\<bar> \<le> g * D2 + (11 * (eps64 * K3) + 4 * eta64)"
    unfolding casteljau_def by blast
  define x3 where "x3 = eps64 * (23 * E3 + 9 * H2)"
  have "x3 \<le> (23 * E3 + 9 * H2) / 1000"
    unfolding x3_def by (rule eps_mult_le) (use E(5) H2n in simp)
  then have "1000 * x3 \<le> 23 * E3 + 9 * H2" by simp
  moreover have "eps64 * K3 = E3 + x3"
    by (simp add: x3_def K3_def E3_def algebra_simps)
  ultimately have eK3: "11 * (eps64 * K3) \<le> 12 * E3 + H2" using E(5) H2n by linarith
  have "casteljau_f64 (Fin a) (Fin b) (Fin c) (Fin d) u = Fin r"
    by (simp only: casteljau_f64_def ab bc cd abc bcd r)
  moreover have "\<bar>r - casteljau a b c d u\<bar> \<le> 35 * E3 + 14 * H2"
    using re gD2 eK3 H10 H20 by linarith
  ultimately show ?thesis
    unfolding E3_def P3_def P2_def P1_def H2_def H1_def by blast
qed

lemma casteljau_f64_tolerance:
  assumes a: "\<bar>a\<bar> \<le> M" and b: "\<bar>b\<bar> \<le> M" and c: "\<bar>c\<bar> \<le> M" and d: "\<bar>d\<bar> \<le> M"
    and g: "\<bar>1 - u\<bar> + \<bar>u\<bar> \<le> g" and gb: "g \<le> 2 ^ 500" and P: "g ^ 3 * M \<le> 2 ^ 1000"
  shows "\<exists>r. casteljau_f64 (Fin a) (Fin b) (Fin c) (Fin d) u = Fin r \<and>
             \<bar>r - casteljau a b c d u\<bar> \<le> 2 powi (- 47) * (g ^ 3 * M) + 2 powi (- 1071) * g\<^sup>2"
proof -
  define g0 where "g0 = \<bar>1 - u\<bar> + \<bar>u\<bar>"
  have M0: "0 \<le> M" using a by linarith
  have g01: "1 \<le> g0" unfolding g0_def by (rule growth_ge_1)
  have g0g: "g0 \<le> g" using g by (simp add: g0_def)
  have g00: "0 \<le> g0" and g0: "0 \<le> g" using g01 g0g by linarith+
  have m1: "g0 * M \<le> g * M" using g0g M0 by (rule mult_right_mono)
  have m2: "g0 * (g0 * M) \<le> g * (g * M)"
    using g0g m1 g0 by (rule mult_mono) (use g00 M0 in simp)
  have m3: "g0 * (g0 * (g0 * M)) \<le> g * (g * (g * M))"
    using g0g m2 g0 by (rule mult_mono) (use g00 M0 in simp)
  have g3: "g * (g * (g * M)) = g ^ 3 * M" by (simp add: power3_eq_cube algebra_simps)
  have h1: "g0 * eta64 \<le> g * eta64"
    using g0g eta64_bounds(1) by (intro mult_right_mono) simp_all
  have h2: "g0 * (g0 * eta64) \<le> g * (g * eta64)"
    using g0g h1 g0 by (rule mult_mono) (use g00 eta64_bounds(1) in simp)
  have g2: "g * (g * eta64) = eta64 * g\<^sup>2" by (simp add: power2_eq_square algebra_simps)
  have P0: "g0 * (g0 * (g0 * M)) \<le> 2 ^ 1000" using m3 g3 P by linarith
  have gb0: "g0 \<le> 2 ^ 500" using g0g gb by linarith
  from casteljau_f64_err [OF a b c d g0_def gb0 P0] obtain r where
    r: "casteljau_f64 (Fin a) (Fin b) (Fin c) (Fin d) u = Fin r"
    and re: "\<bar>r - casteljau a b c d u\<bar>
      \<le> 35 * (eps64 * (g0 * (g0 * (g0 * M)))) + 14 * (g0 * (g0 * eta64))" by blast
  have "eps64 * (g0 * (g0 * (g0 * M))) \<le> eps64 * (g ^ 3 * M)"
    using m3 eps64_bounds(1) unfolding g3 by (intro mult_left_mono) simp_all
  moreover have "0 \<le> eps64 * (g ^ 3 * M)" using eps64_bounds(1) g0 M0 by simp
  moreover have "g0 * (g0 * eta64) \<le> eta64 * g\<^sup>2" using h2 g2 by linarith
  moreover have "0 \<le> eta64 * g\<^sup>2" using eta64_bounds(1) by simp
  ultimately have "\<bar>r - casteljau a b c d u\<bar> \<le> 64 * (eps64 * (g ^ 3 * M)) + 16 * (eta64 * g\<^sup>2)"
    using re by linarith
  also have "\<dots> = 2 powi (- 47) * (g ^ 3 * M) + 2 powi (- 1071) * g\<^sup>2"
    by (simp add: eps64_def eta64_def)
  finally show ?thesis using r by blast
qed


text \<open>
  C10, as the code has it. For every \<open>u\<close>, every \<open>g\<close> with \<open>|1 - u| + |u| \<le> g \<le> 2^500\<close>
  (\<open>g = 1\<close> serves every \<open>u\<close> from 0 to 1) and all 3D control points whose coordinates
  have magnitude at most \<open>M\<close>, where \<open>g^3 * M \<le> 2^1000\<close>: every coordinate that
  \<open>bezier_point\<close> returns is finite and differs from the Bernstein polynomial form
  \<open>(1-u)^3*p0 + 3*(1-u)^2*u*p1 + 3*(1-u)*u^2*p2 + u^3*p3\<close> of that coordinate by at
  most \<open>2^-47 * g^3 * M + 2^-1071 * g^2\<close>.
\<close>

theorem bezier_point_f64_near_bernstein:
  assumes "\<bar>1 - u\<bar> + \<bar>u\<bar> \<le> g" and "g \<le> 2 ^ 500"
    and "list_all (\<lambda>c. \<bar>c\<bar> \<le> M) [x0, y0, z0, x1, y1, z1, x2, y2, z2, x3, y3, z3]"
    and "g ^ 3 * M \<le> 2 ^ 1000"
  shows "\<exists>x y z.
     bezier_point_f64 [Fin x0, Fin y0, Fin z0] [Fin x1, Fin y1, Fin z1]
       [Fin x2, Fin y2, Fin z2] [Fin x3, Fin y3, Fin z3] u = Inr [Fin x, Fin y, Fin z] \<and>
     \<bar>x - bernstein x0 x1 x2 x3 u\<bar> \<le> 2 powi (- 47) * (g ^ 3 * M) + 2 powi (- 1071) * g\<^sup>2 \<and>
     \<bar>y - bernstein y0 y1 y2 y3 u\<bar> \<le> 2 powi (- 47) * (g ^ 3 * M) + 2 powi (- 1071) * g\<^sup>2 \<and>
     \<bar>z - bernstein z0 z1 z2 z3 u\<bar> \<le> 2 powi (- 47) * (g ^ 3 * M) + 2 powi (- 1071) * g\<^sup>2"
proof -
  from assms(3) have b: "\<bar>x0\<bar> \<le> M" "\<bar>y0\<bar> \<le> M" "\<bar>z0\<bar> \<le> M" "\<bar>x1\<bar> \<le> M" "\<bar>y1\<bar> \<le> M" "\<bar>z1\<bar> \<le> M"
    "\<bar>x2\<bar> \<le> M" "\<bar>y2\<bar> \<le> M" "\<bar>z2\<bar> \<le> M" "\<bar>x3\<bar> \<le> M" "\<bar>y3\<bar> \<le> M" "\<bar>z3\<bar> \<le> M"
    by simp_all
  from casteljau_f64_tolerance [OF b(1) b(4) b(7) b(10) assms(1,2,4)]
  obtain x where x: "casteljau_f64 (Fin x0) (Fin x1) (Fin x2) (Fin x3) u = Fin x"
    "\<bar>x - casteljau x0 x1 x2 x3 u\<bar> \<le> 2 powi (- 47) * (g ^ 3 * M) + 2 powi (- 1071) * g\<^sup>2"
    by blast
  from casteljau_f64_tolerance [OF b(2) b(5) b(8) b(11) assms(1,2,4)]
  obtain y where y: "casteljau_f64 (Fin y0) (Fin y1) (Fin y2) (Fin y3) u = Fin y"
    "\<bar>y - casteljau y0 y1 y2 y3 u\<bar> \<le> 2 powi (- 47) * (g ^ 3 * M) + 2 powi (- 1071) * g\<^sup>2"
    by blast
  from casteljau_f64_tolerance [OF b(3) b(6) b(9) b(12) assms(1,2,4)]
  obtain z where z: "casteljau_f64 (Fin z0) (Fin z1) (Fin z2) (Fin z3) u = Fin z"
    "\<bar>z - casteljau z0 z1 z2 z3 u\<bar> \<le> 2 powi (- 47) * (g ^ 3 * M) + 2 powi (- 1071) * g\<^sup>2"
    by blast
  have "bezier_point_f64 [Fin x0, Fin y0, Fin z0] [Fin x1, Fin y1, Fin z1]
       [Fin x2, Fin y2, Fin z2] [Fin x3, Fin y3, Fin z3] u = Inr [Fin x, Fin y, Fin z]"
    by (simp only: bezier_point_f64_3 x(1) y(1) z(1))
  with x(2) y(2) z(2) show ?thesis
    unfolding casteljau_bernstein by blast
qed

theorem bezier_point_f64_near_bernstein_witness:
  "\<bar>1 - (2::real)\<bar> + \<bar>2\<bar> \<le> 3 \<and> (3::real) \<le> 2 ^ 500 \<and>
   list_all (\<lambda>c. \<bar>c\<bar> \<le> (3::real)) [0, 0, 0, 1, 2, 0, 2, 2, 0, 3, 0, 0] \<and>
   (3::real) ^ 3 * 3 \<le> 2 ^ 1000 \<and>
   (\<exists>x y z.
     bezier_point_f64 [Fin 0, Fin 0, Fin 0] [Fin 1, Fin 2, Fin 0]
       [Fin 2, Fin 2, Fin 0] [Fin 3, Fin 0, Fin 0] 2 = Inr [Fin x, Fin y, Fin z] \<and>
     \<bar>x - bernstein 0 1 2 3 2\<bar> \<le> 2 powi (- 47) * (3 ^ 3 * 3) + 2 powi (- 1071) * 3\<^sup>2 \<and>
     \<bar>y - bernstein 0 2 2 0 2\<bar> \<le> 2 powi (- 47) * (3 ^ 3 * 3) + 2 powi (- 1071) * 3\<^sup>2 \<and>
     \<bar>z - bernstein 0 0 0 0 2\<bar> \<le> 2 powi (- 47) * (3 ^ 3 * 3) + 2 powi (- 1071) * 3\<^sup>2)"
proof -
  have h: "\<bar>1 - (2::real)\<bar> + \<bar>2\<bar> \<le> 3" "(3::real) \<le> 2 ^ 500"
    "list_all (\<lambda>c. \<bar>c\<bar> \<le> (3::real)) [0, 0, 0, 1, 2, 0, 2, 2, 0, 3, 0, 0]"
    "(3::real) ^ 3 * 3 \<le> 2 ^ 1000" by simp_all
  from bezier_point_f64_near_bernstein [OF h] h show ?thesis by blast
qed

text \<open>
  The claim C10 itself fails on the code: with the control points (0,0,0), (1,0,0),
  (0,0,0), (0,0,0) and \<open>u = 2^-60\<close>, \<open>bezier_point\<close> returns \<open>3 * 2^-60\<close> in the first
  coordinate, which is not the value \<open>3 * (1 - u)^2 * u\<close> of the Bernstein form.
\<close>

theorem bezier_point_f64_bernstein_counterexample:
  "bezier_point_f64 [Fin 0, Fin 0, Fin 0] [Fin 1, Fin 0, Fin 0] [Fin 0, Fin 0, Fin 0]
     [Fin 0, Fin 0, Fin 0] (2 powi (- 60)) = Inr [Fin (3 * 2 powi (- 60)), Fin 0, Fin 0] \<and>
   bernstein 0 1 0 0 (2 powi (- 60)) \<noteq> 3 * 2 powi (- 60)"
proof -
  have "bernstein 0 1 0 0 (2 powi (- 60)) \<noteq> 3 * 2 powi (- 60)"
    by (simp add: bernstein_def power2_eq_square)
  then show ?thesis
    by (simp only: bezier_point_f64_3 casteljau_f64_0100_tiny
        casteljau_f64_zero [OF fl_one_minus_tiny]) simp
qed






subsection \<open>The reversed control polygon\<close>

lemma casteljau_reverse: "casteljau d c b a (1 - t) = casteljau a b c d t"
  by (simp add: casteljau_def algebra_simps)

lemma lerp_abs_le_growth:
  fixes u :: real
  assumes "\<bar>x\<bar> \<le> K" "\<bar>y\<bar> \<le> K" "\<bar>1 - u\<bar> + \<bar>u\<bar> \<le> G"
  shows "\<bar>(1 - u) * x + u * y\<bar> \<le> G * K"
proof -
  have K0: "0 \<le> K" using assms(1) by linarith
  have "\<bar>(1 - u) * x + u * y\<bar> \<le> (\<bar>1 - u\<bar> + \<bar>u\<bar>) * K"
    by (rule lerp_abs_le [OF assms(1,2)])
  also have "\<dots> \<le> G * K" using assms(3) K0 by (rule mult_right_mono)
  finally show ?thesis .
qed

lemma lerp_perturb:
  fixes u w :: real
  assumes "\<bar>x' - x\<bar> \<le> D" "\<bar>y' - y\<bar> \<le> D" "\<bar>x\<bar> \<le> K" "\<bar>y\<bar> \<le> K"
    and "\<bar>1 - w\<bar> + \<bar>w\<bar> \<le> G" and "\<bar>w - u\<bar> \<le> dl"
  shows "\<bar>((1 - w) * x' + w * y') - ((1 - u) * x + u * y)\<bar> \<le> G * D + 2 * (dl * K)"
proof -
  have K0: "0 \<le> K" using assms(3) by linarith
  have d0: "0 \<le> dl" using assms(6) by linarith
  have i: "((1 - w) * x' + w * y') - ((1 - u) * x + u * y) =
      ((1 - w) * (x' - x) + w * (y' - y)) + (w - u) * (y - x)"
    by (simp add: algebra_simps)
  have p: "\<bar>(1 - w) * (x' - x) + w * (y' - y)\<bar> \<le> G * D"
    by (rule lerp_abs_le_growth [OF assms(1,2,5)])
  have "\<bar>y - x\<bar> \<le> 2 * K" using assms(3,4) by linarith
  then have "\<bar>w - u\<bar> * \<bar>y - x\<bar> \<le> dl * (2 * K)"
    using assms(6) d0 by (intro mult_mono) simp_all
  then have q: "\<bar>(w - u) * (y - x)\<bar> \<le> 2 * (dl * K)" by (simp add: abs_mult)
  show ?thesis unfolding i using p q by linarith
qed

lemma casteljau_perturb:
  assumes a: "\<bar>a\<bar> \<le> M" and b: "\<bar>b\<bar> \<le> M" and c: "\<bar>c\<bar> \<le> M" and d: "\<bar>d\<bar> \<le> M"
    and gu: "\<bar>1 - u\<bar> + \<bar>u\<bar> \<le> G" and gw: "\<bar>1 - w\<bar> + \<bar>w\<bar> \<le> G" and dl: "\<bar>w - u\<bar> \<le> dl"
  shows "\<bar>casteljau a b c d w - casteljau a b c d u\<bar> \<le> 6 * (dl * (G * (G * M)))"
proof -
  define D1 D2 where "D1 = G * 0 + 2 * (dl * M)" and "D2 = G * D1 + 2 * (dl * (G * M))"
  have z: "\<bar>a - a\<bar> \<le> 0" "\<bar>b - b\<bar> \<le> 0" "\<bar>c - c\<bar> \<le> 0" "\<bar>d - d\<bar> \<le> 0" by simp_all
  have ab: "\<bar>((1 - w) * a + w * b) - ((1 - u) * a + u * b)\<bar> \<le> D1"
    unfolding D1_def by (rule lerp_perturb [OF z(1,2) a b gw dl])
  have bc: "\<bar>((1 - w) * b + w * c) - ((1 - u) * b + u * c)\<bar> \<le> D1"
    unfolding D1_def by (rule lerp_perturb [OF z(2,3) b c gw dl])
  have cd: "\<bar>((1 - w) * c + w * d) - ((1 - u) * c + u * d)\<bar> \<le> D1"
    unfolding D1_def by (rule lerp_perturb [OF z(3,4) c d gw dl])
  note abm = lerp_abs_le_growth [OF a b gu] and bcm = lerp_abs_le_growth [OF b c gu]
    and cdm = lerp_abs_le_growth [OF c d gu]
  have abc: "\<bar>((1 - w) * ((1 - w) * a + w * b) + w * ((1 - w) * b + w * c)) -
      ((1 - u) * ((1 - u) * a + u * b) + u * ((1 - u) * b + u * c))\<bar> \<le> D2"
    unfolding D2_def by (rule lerp_perturb [OF ab bc abm bcm gw dl])
  have bcd: "\<bar>((1 - w) * ((1 - w) * b + w * c) + w * ((1 - w) * c + w * d)) -
      ((1 - u) * ((1 - u) * b + u * c) + u * ((1 - u) * c + u * d))\<bar> \<le> D2"
    unfolding D2_def by (rule lerp_perturb [OF bc cd bcm cdm gw dl])
  note abcm = lerp_abs_le_growth [OF abm bcm gu] and bcdm = lerp_abs_le_growth [OF bcm cdm gu]
  have "\<bar>casteljau a b c d w - casteljau a b c d u\<bar> \<le> G * D2 + 2 * (dl * (G * (G * M)))"
    unfolding casteljau_def by (rule lerp_perturb [OF abc bcd abcm bcdm gw dl])
  also have "\<dots> = 6 * (dl * (G * (G * M)))"
    by (simp add: D1_def D2_def algebra_simps)
  finally show ?thesis .
qed

lemma casteljau_f64_reversal_tolerance:
  assumes a: "\<bar>a\<bar> \<le> M" and b: "\<bar>b\<bar> \<le> M" and c: "\<bar>c\<bar> \<le> M" and d: "\<bar>d\<bar> \<le> M"
    and g: "\<bar>1 - u\<bar> + \<bar>u\<bar> \<le> g" and gb: "g \<le> 2 ^ 499" and P: "g ^ 3 * M \<le> 2 ^ 997"
    and w: "fl (1 - u) = Fin w"
  shows "\<exists>x x'. casteljau_f64 (Fin a) (Fin b) (Fin c) (Fin d) u = Fin x \<and>
     casteljau_f64 (Fin d) (Fin c) (Fin b) (Fin a) w = Fin x' \<and>
     \<bar>x' - x\<bar> \<le> 2 powi (- 43) * (g ^ 3 * M) + 2 powi (- 1068) * g\<^sup>2"
proof -
  note e = eps64_bounds and h = eta64_bounds
  define Q R where "Q = g ^ 3 * M" and "R = g\<^sup>2"
  define dl where "dl = eps64 * g + eta64"
  have M0: "0 \<le> M" using a by linarith
  have g1: "1 \<le> g" using growth_ge_1 [of u] g by linarith
  have R0: "0 \<le> R" by (simp add: R_def)
  have gM: "0 \<le> g * (g * M)" using g1 M0 by simp
  have "1 * (g * (g * M)) \<le> g * (g * (g * M))" using g1 gM by (rule mult_right_mono)
  then have gQ: "g * (g * M) \<le> Q" by (simp add: Q_def power3_eq_cube algebra_simps)
  then have Q0: "0 \<le> Q" using gM by linarith
  \<comment> \<open>the float \<open>1 - u\<close>\<close>
  have u1: "\<bar>1 - u\<bar> \<le> g" using g by linarith
  have "(2::real) ^ 499 \<le> 2 ^ 1023" by simp
  then have "\<bar>1 - u\<bar> \<le> 2 ^ 1023" using u1 gb by linarith
  from fl_err [OF this] w have we: "\<bar>w - (1 - u)\<bar> \<le> eps64 * \<bar>1 - u\<bar> + eta64" by auto
  have "eps64 * \<bar>1 - u\<bar> \<le> eps64 * g" using e(1) u1 by (intro mult_left_mono) simp_all
  with we have wd: "\<bar>w - (1 - u)\<bar> \<le> dl" by (simp add: dl_def)
  have "eps64 * g \<le> g / 1000" using eps_mult_le [of g] g1 by simp
  then have "1000 * (eps64 * g) \<le> g" by simp
  then have dg: "500 * dl \<le> g" using dl_def h(2) e(2) g1 by linarith
  have d0: "0 \<le> dl" using wd by linarith
  have gw: "\<bar>1 - w\<bar> + \<bar>w\<bar> \<le> 2 * g" using wd dg g by linarith
  have gw': "\<bar>1 - (1 - w)\<bar> + \<bar>1 - w\<bar> \<le> 2 * g" using gw by simp
  have gu': "\<bar>1 - u\<bar> + \<bar>u\<bar> \<le> 2 * g" using g g1 by linarith
  have wu: "\<bar>(1 - w) - u\<bar> \<le> dl" using wd by linarith
  \<comment> \<open>the two computed values\<close>
  have big: "(2::real) * 2 ^ 499 = 2 ^ 500" "(8::real) * 2 ^ 997 = 2 ^ 1000"
    "(0::real) \<le> 2 ^ 499" "(0::real) \<le> 2 ^ 997" by simp_all
  have Pq: "Q \<le> 2 ^ 997" using P by (simp only: Q_def)
  have gb1: "g \<le> 2 ^ 500" using gb big(1,3) by linarith
  have P1: "g ^ 3 * M \<le> 2 ^ 1000" using P big(2,4) by linarith
  have gb2: "2 * g \<le> 2 ^ 500" using gb big(1) by linarith
  have Q8: "(2 * g) ^ 3 * M = 8 * Q" by (simp add: Q_def power3_eq_cube)
  have R4: "(2 * g)\<^sup>2 = 4 * R" by (simp add: R_def power2_eq_square)
  have P2: "(2 * g) ^ 3 * M \<le> 2 ^ 1000" unfolding Q8 using Pq big(2) by linarith
  from casteljau_f64_tolerance [OF a b c d g gb1 P1] obtain x where
    x: "casteljau_f64 (Fin a) (Fin b) (Fin c) (Fin d) u = Fin x"
    and xe: "\<bar>x - casteljau a b c d u\<bar> \<le> 2 powi (- 47) * Q + 2 powi (- 1071) * R"
    unfolding Q_def R_def by blast
  from casteljau_f64_tolerance [OF d c b a gw gb2 P2] obtain x' where
    x': "casteljau_f64 (Fin d) (Fin c) (Fin b) (Fin a) w = Fin x'"
    and xe': "\<bar>x' - casteljau d c b a w\<bar> \<le> 2 powi (- 47) * (8 * Q) + 2 powi (- 1071) * (4 * R)"
    unfolding Q8 R4 by blast
  have r: "casteljau d c b a w = casteljau a b c d (1 - w)"
    using casteljau_reverse [of d c b a "1 - w"] by simp
  \<comment> \<open>the exact curve at the two parameters\<close>
  have "\<bar>casteljau a b c d (1 - w) - casteljau a b c d u\<bar> \<le> 6 * (dl * (2 * g * (2 * g * M)))"
    by (rule casteljau_perturb [OF a b c d gu' gw' wu])
  also have "\<dots> = 24 * (eps64 * (g * (g * (g * M)))) + 24 * (eta64 * (g * (g * M)))"
    by (simp add: dl_def algebra_simps)
  also have "\<dots> \<le> 24 * (eps64 * Q) + 24 * (eps64 * Q)"
  proof -
    have q: "g * (g * (g * M)) = Q" by (simp add: Q_def power3_eq_cube algebra_simps)
    have "eta64 * (g * (g * M)) \<le> eps64 * Q"
      using h(2) gQ gM e(1) by (intro mult_mono) simp_all
    then show ?thesis unfolding q by linarith
  qed
  finally have pe: "\<bar>casteljau a b c d (1 - w) - casteljau a b c d u\<bar> \<le> 48 * (eps64 * Q)"
    by linarith
  have n: "2 powi (- 47) * Q = 64 * (eps64 * Q)" "2 powi (- 1071) * R = 16 * (eta64 * R)"
    "2 powi (- 47) * (8 * Q) = 512 * (eps64 * Q)" "2 powi (- 1071) * (4 * R) = 64 * (eta64 * R)"
    "2 powi (- 43) * Q = 1024 * (eps64 * Q)" "2 powi (- 1068) * R = 128 * (eta64 * R)"
    by (simp_all add: eps64_def eta64_def)
  have EQ: "0 \<le> eps64 * Q" "0 \<le> eta64 * R" using e(1) h(1) Q0 R0 by simp_all
  have "\<bar>x' - x\<bar> \<le> 2 powi (- 43) * Q + 2 powi (- 1068) * R"
    using xe xe' pe EQ unfolding n r by linarith
  then show ?thesis using x x' unfolding Q_def R_def by blast
qed

lemma bezier_point_f64_reverse:
  assumes "fl u = Fin u" and "fl (1 - u) = Fin (1 - u)"
  shows "bezier_point_f64 [x3, y3, z3] [x2, y2, z2] [x1, y1, z1] [x0, y0, z0] (1 - u) =
         bezier_point_f64 [x0, y0, z0] [x1, y1, z1] [x2, y2, z2] [x3, y3, z3] u"
  by (simp only: bezier_point_f64_3 casteljau_f64_reverse [OF assms])

text \<open>
  C4, as the code has it. Let \<open>w\<close> be the float \<open>1 - u\<close>, the parameter that a caller
  passes for the reversed control polygon. For every \<open>u\<close>, every \<open>g\<close> with
  \<open>|1 - u| + |u| \<le> g \<le> 2^499\<close> (\<open>g = 1\<close> serves every \<open>u\<close> from 0 to 1) and all 3D
  control points whose coordinates have magnitude at most \<open>M\<close>, where
  \<open>g^3 * M \<le> 2^997\<close>: \<open>bezier_point\<close> on the control polygon at \<open>u\<close> and \<open>bezier_point\<close> on
  the reversed control polygon at \<open>w\<close> both return finite coordinates, which differ by at
  most \<open>2^-43 * g^3 * M + 2^-1068 * g^2\<close>; and they return the same floats when \<open>u\<close> is a
  float and the subtraction \<open>1 - u\<close> did not round (\<open>w\<close> is the real number \<open>1 - u\<close>).
  By \<open>bezier_point_f64_reverse\<close> the two results are the same in that case for all
  coordinates, the non-finite ones included.
\<close>

theorem bezier_point_f64_reversal:
  assumes "fl (1 - u) = Fin w"
    and "\<bar>1 - u\<bar> + \<bar>u\<bar> \<le> g" and "g \<le> 2 ^ 499"
    and "list_all (\<lambda>c. \<bar>c\<bar> \<le> M) [x0, y0, z0, x1, y1, z1, x2, y2, z2, x3, y3, z3]"
    and "g ^ 3 * M \<le> 2 ^ 997"
  shows "\<exists>x y z x' y' z'.
     bezier_point_f64 [Fin x0, Fin y0, Fin z0] [Fin x1, Fin y1, Fin z1]
       [Fin x2, Fin y2, Fin z2] [Fin x3, Fin y3, Fin z3] u = Inr [Fin x, Fin y, Fin z] \<and>
     bezier_point_f64 [Fin x3, Fin y3, Fin z3] [Fin x2, Fin y2, Fin z2]
       [Fin x1, Fin y1, Fin z1] [Fin x0, Fin y0, Fin z0] w = Inr [Fin x', Fin y', Fin z'] \<and>
     \<bar>x' - x\<bar> \<le> 2 powi (- 43) * (g ^ 3 * M) + 2 powi (- 1068) * g\<^sup>2 \<and>
     \<bar>y' - y\<bar> \<le> 2 powi (- 43) * (g ^ 3 * M) + 2 powi (- 1068) * g\<^sup>2 \<and>
     \<bar>z' - z\<bar> \<le> 2 powi (- 43) * (g ^ 3 * M) + 2 powi (- 1068) * g\<^sup>2 \<and>
     (fl u = Fin u \<and> w = 1 - u \<longrightarrow> x' = x \<and> y' = y \<and> z' = z)"
proof -
  from assms(4) have b: "\<bar>x0\<bar> \<le> M" "\<bar>y0\<bar> \<le> M" "\<bar>z0\<bar> \<le> M" "\<bar>x1\<bar> \<le> M" "\<bar>y1\<bar> \<le> M" "\<bar>z1\<bar> \<le> M"
    "\<bar>x2\<bar> \<le> M" "\<bar>y2\<bar> \<le> M" "\<bar>z2\<bar> \<le> M" "\<bar>x3\<bar> \<le> M" "\<bar>y3\<bar> \<le> M" "\<bar>z3\<bar> \<le> M"
    by simp_all
  from casteljau_f64_reversal_tolerance [OF b(1) b(4) b(7) b(10) assms(2,3,5,1)]
  obtain x x' where x: "casteljau_f64 (Fin x0) (Fin x1) (Fin x2) (Fin x3) u = Fin x"
    "casteljau_f64 (Fin x3) (Fin x2) (Fin x1) (Fin x0) w = Fin x'"
    "\<bar>x' - x\<bar> \<le> 2 powi (- 43) * (g ^ 3 * M) + 2 powi (- 1068) * g\<^sup>2" by blast
  from casteljau_f64_reversal_tolerance [OF b(2) b(5) b(8) b(11) assms(2,3,5,1)]
  obtain y y' where y: "casteljau_f64 (Fin y0) (Fin y1) (Fin y2) (Fin y3) u = Fin y"
    "casteljau_f64 (Fin y3) (Fin y2) (Fin y1) (Fin y0) w = Fin y'"
    "\<bar>y' - y\<bar> \<le> 2 powi (- 43) * (g ^ 3 * M) + 2 powi (- 1068) * g\<^sup>2" by blast
  from casteljau_f64_reversal_tolerance [OF b(3) b(6) b(9) b(12) assms(2,3,5,1)]
  obtain z z' where z: "casteljau_f64 (Fin z0) (Fin z1) (Fin z2) (Fin z3) u = Fin z"
    "casteljau_f64 (Fin z3) (Fin z2) (Fin z1) (Fin z0) w = Fin z'"
    "\<bar>z' - z\<bar> \<le> 2 powi (- 43) * (g ^ 3 * M) + 2 powi (- 1068) * g\<^sup>2" by blast
  have bu: "bezier_point_f64 [Fin x0, Fin y0, Fin z0] [Fin x1, Fin y1, Fin z1]
       [Fin x2, Fin y2, Fin z2] [Fin x3, Fin y3, Fin z3] u = Inr [Fin x, Fin y, Fin z]"
    by (simp only: bezier_point_f64_3 x(1) y(1) z(1))
  have bw: "bezier_point_f64 [Fin x3, Fin y3, Fin z3] [Fin x2, Fin y2, Fin z2]
       [Fin x1, Fin y1, Fin z1] [Fin x0, Fin y0, Fin z0] w = Inr [Fin x', Fin y', Fin z']"
    by (simp only: bezier_point_f64_3 x(2) y(2) z(2))
  have ex: "x' = x \<and> y' = y \<and> z' = z" if e: "fl u = Fin u \<and> w = 1 - u"
  proof -
    from e assms(1) have f: "fl u = Fin u" "fl (1 - u) = Fin (1 - u)" and w: "w = 1 - u"
      by simp_all
    from bw bu bezier_point_f64_reverse [OF f, of "Fin x3" "Fin y3" "Fin z3" "Fin x2" "Fin y2" "Fin z2"
        "Fin x1" "Fin y1" "Fin z1" "Fin x0" "Fin y0" "Fin z0"]
    show ?thesis unfolding w by simp
  qed
  from bu bw x(3) y(3) z(3) ex show ?thesis by blast
qed

theorem bezier_point_f64_reversal_witness:
  "fl (1 - 1 / 2) = Fin (1 / 2) \<and> \<bar>1 - 1 / 2\<bar> + \<bar>1 / 2\<bar> \<le> (1::real) \<and> (1::real) \<le> 2 ^ 499 \<and>
   list_all (\<lambda>c. \<bar>c\<bar> \<le> (3::real)) [0, 0, 0, 1, 2, 0, 2, 2, 0, 3, 0, 0] \<and>
   (1::real) ^ 3 * 3 \<le> 2 ^ 997 \<and>
   (\<exists>x y z x' y' z'.
     bezier_point_f64 [Fin 0, Fin 0, Fin 0] [Fin 1, Fin 2, Fin 0]
       [Fin 2, Fin 2, Fin 0] [Fin 3, Fin 0, Fin 0] (1 / 2) = Inr [Fin x, Fin y, Fin z] \<and>
     bezier_point_f64 [Fin 3, Fin 0, Fin 0] [Fin 2, Fin 2, Fin 0]
       [Fin 1, Fin 2, Fin 0] [Fin 0, Fin 0, Fin 0] (1 / 2) = Inr [Fin x', Fin y', Fin z'] \<and>
     \<bar>x' - x\<bar> \<le> 2 powi (- 43) * (1 ^ 3 * 3) + 2 powi (- 1068) * 1\<^sup>2 \<and>
     \<bar>y' - y\<bar> \<le> 2 powi (- 43) * (1 ^ 3 * 3) + 2 powi (- 1068) * 1\<^sup>2 \<and>
     \<bar>z' - z\<bar> \<le> 2 powi (- 43) * (1 ^ 3 * 3) + 2 powi (- 1068) * 1\<^sup>2 \<and>
     x' = x \<and> y' = y \<and> z' = z)"
proof -
  have h: "fl (1 - 1 / 2) = Fin (1 / 2)" "\<bar>1 - 1 / 2\<bar> + \<bar>1 / 2\<bar> \<le> (1::real)" "(1::real) \<le> 2 ^ 499"
    "list_all (\<lambda>c. \<bar>c\<bar> \<le> (3::real)) [0, 0, 0, 1, 2, 0, 2, 2, 0, 3, 0, 0]"
    "(1::real) ^ 3 * 3 \<le> 2 ^ 997" by (simp_all add: fl_half)
  have e: "fl (1 / 2) = Fin (1 / 2) \<and> (1::real) / 2 = 1 - 1 / 2" by (simp add: fl_half)
  from bezier_point_f64_reversal [OF h] e h show ?thesis by blast
qed

text \<open>
  The claim C4 itself fails on the code. For \<open>u = 2^-60\<close> the float \<open>1 - u\<close> is 1.0;
  with the control points (0,0,0), (1,0,0), (0,0,0), (0,0,0) the curve at \<open>u\<close> is
  \<open>(3 * 2^-60, 0, 0)\<close>, and the curve on the reversed control polygon at 1.0 is (0,0,0).
\<close>

theorem bezier_point_f64_reversal_counterexample:
  "bezier_point_f64 [Fin 0, Fin 0, Fin 0] [Fin 1, Fin 0, Fin 0] [Fin 0, Fin 0, Fin 0]
     [Fin 0, Fin 0, Fin 0] (2 powi (- 60)) = Inr [Fin (3 * 2 powi (- 60)), Fin 0, Fin 0] \<and>
   fl (1 - 2 powi (- 60)) = Fin 1 \<and>
   bezier_point_f64 [Fin 0, Fin 0, Fin 0] [Fin 0, Fin 0, Fin 0] [Fin 1, Fin 0, Fin 0]
     [Fin 0, Fin 0, Fin 0] 1 = Inr [Fin 0, Fin 0, Fin 0]"
  by (simp only: bezier_point_f64_3 casteljau_f64_0100_tiny casteljau_f64_zero [OF fl_one_minus_tiny]
      fl_one_minus_tiny casteljau_f64_at_1 [OF fl_0 fl_1 fl_0] casteljau_f64_at_1 [OF fl_0 fl_0 fl_0])

section \<open>The constructor and the surface in binary64\<close>

lemma norm_f64_3:
  "np_linalg_norm_f64 [x, y, z] =
   f64_sqrt (f64_add (f64_add (f64_add (Fin 0) (f64_mul (Fin x) (Fin x))) (f64_mul (Fin y) (Fin y)))
               (f64_mul (Fin z) (Fin z)))"
  by (simp add: np_linalg_norm_f64_def)



lemma norm_f64_1_0_0: "np_linalg_norm_f64 [1, 0, 0] = Fin 1"
  by (simp add: norm_f64_3 fl_0 fl_1)

lemma surface_point_f64_3:
  "surface_point_f64
     \<lparr>control_points = [[x0, y0, z0], [x1, y1, z1], [x2, y2, z2], [x3, y3, z3]],
      delta = dl, direction_vector = [a, b, c], u0 = u', v0 = v'\<rparr> u v =
   Inr [f64_add (casteljau_f64 (Fin x0) (Fin x1) (Fin x2) (Fin x3) u)
          (f64_mul (f64_mul (Fin v) (Fin dl)) a),
        f64_add (casteljau_f64 (Fin y0) (Fin y1) (Fin y2) (Fin y3) u)
          (f64_mul (f64_mul (Fin v) (Fin dl)) b),
        f64_add (casteljau_f64 (Fin z0) (Fin z1) (Fin z2) (Fin z3) u)
          (f64_mul (f64_mul (Fin v) (Fin dl)) c)]"
  by (simp add: surface_point_f64_def bezier_point_f64_3 np_add_f64_def np_multiply_f64_def
      broadcast_def)



lemma fst_call_f64: "fst (call_f64 self c) = self"
  by (cases c) simp_all

lemma calls_f64_same: "calls_f64 self cs = self"
  by (induction cs) (simp_all add: fst_call_f64)







subsection \<open>The rounding error of the offset\<close>

lemma offset_f64_err:
  assumes r: "\<bar>r\<bar> \<le> 3 * M + 16 * eta64" and c: "\<bar>v * dl\<bar> \<le> M" and a: "\<bar>a\<bar> \<le> 2"
    and M: "M \<le> 2 ^ 1000"
  shows "\<exists>s. f64_add (Fin r) (f64_mul (f64_mul (Fin v) (Fin dl)) (Fin a)) = Fin s \<and>
             \<bar>s - (r + v * dl * a)\<bar> \<le> 12 * (eps64 * M) + 6 * eta64"
proof -
  define E where "E = eps64 * M"
  have M0: "0 \<le> M" using c by linarith
  note e = eps64_bounds and h = eta64_bounds
  have E0: "0 \<le> E" "E \<le> M / 1000"
    using e M0 eps_mult_le [OF M0] by (simp_all add: E_def)
  have big: "(2::real) ^ 1000 * 8388608 = 2 ^ 1023" "(1::real) \<le> 2 ^ 1000" by simp_all
  \<comment> \<open>\<open>v * delta\<close>\<close>
  have "\<bar>v * dl\<bar> \<le> 2 ^ 1023" using c M big by linarith
  from fl_err [OF this] obtain cv where cv: "fl (v * dl) = Fin cv"
    and cve: "\<bar>cv - v * dl\<bar> \<le> eps64 * \<bar>v * dl\<bar> + eta64" by blast
  have "eps64 * \<bar>v * dl\<bar> \<le> eps64 * M"
    using e(1) c by (intro mult_left_mono) simp_all
  with cve have cve': "\<bar>cv - v * dl\<bar> \<le> E + eta64" by (simp add: E_def)
  then have cvb: "\<bar>cv\<bar> \<le> 2 * M + eta64" using c E0 by linarith
  \<comment> \<open>times the direction's component\<close>
  have "\<bar>cv * a\<bar> \<le> (2 * M + eta64) * 2"
    unfolding abs_mult using cvb a M0 h by (intro mult_mono) simp_all
  then have cab: "\<bar>cv * a\<bar> \<le> 4 * M + 2 * eta64" by simp
  then have "\<bar>cv * a\<bar> \<le> 2 ^ 1023" using M big h by linarith
  from fl_err [OF this] obtain p where p: "fl (cv * a) = Fin p"
    and pe: "\<bar>p - cv * a\<bar> \<le> eps64 * \<bar>cv * a\<bar> + eta64" by blast
  have p1: "eps64 * \<bar>cv * a\<bar> \<le> eps64 * (4 * M + 2 * eta64)"
    using e(1) cab by (intro mult_left_mono) simp_all
  have p2: "eps64 * (4 * M + 2 * eta64) = 4 * E + eps64 * (2 * eta64)"
    by (simp add: E_def algebra_simps)
  have p3: "eps64 * (2 * eta64) \<le> (2 * eta64) / 1000"
    by (rule eps_mult_le) (use h in simp)
  have pe': "\<bar>p - cv * a\<bar> \<le> 4 * E + 2 * eta64"
    using pe p1 p2 p3 h by linarith
  have "\<bar>cv * a - v * dl * a\<bar> = \<bar>cv - v * dl\<bar> * \<bar>a\<bar>"
    by (simp add: abs_mult [symmetric] left_diff_distrib)
  also have "\<dots> \<le> (E + eta64) * 2"
    using cve' a E0 h by (intro mult_mono) simp_all
  finally have cae: "\<bar>cv * a - v * dl * a\<bar> \<le> 2 * E + 2 * eta64" by simp
  have "\<bar>v * dl * a\<bar> \<le> M * 2"
    unfolding abs_mult [of "v * dl" a] using c a M0 by (intro mult_mono) simp_all
  then have pb: "\<bar>p\<bar> \<le> 2 * M + 6 * E + 4 * eta64"
    using pe' cae by linarith
  \<comment> \<open>the sum\<close>
  have s: "\<bar>r + p\<bar> \<le> 6 * M + 20 * eta64"
    using r pb E0 by linarith
  then have "\<bar>r + p\<bar> \<le> 2 ^ 1023" using M big h by linarith
  from fl_err [OF this] obtain s where s1: "fl (r + p) = Fin s"
    and se: "\<bar>s - (r + p)\<bar> \<le> eps64 * \<bar>r + p\<bar> + eta64" by blast
  have q1: "eps64 * \<bar>r + p\<bar> \<le> eps64 * (6 * M + 20 * eta64)"
    using e(1) s by (intro mult_left_mono) simp_all
  have q2: "eps64 * (6 * M + 20 * eta64) = 6 * E + eps64 * (20 * eta64)"
    by (simp add: E_def algebra_simps)
  have q3: "eps64 * (20 * eta64) \<le> (20 * eta64) / 1000"
    by (rule eps_mult_le) (use h in simp)
  have se': "\<bar>s - (r + p)\<bar> \<le> 6 * E + 2 * eta64"
    using se q1 q2 q3 h by linarith
  have "f64_add (Fin r) (f64_mul (f64_mul (Fin v) (Fin dl)) (Fin a)) = Fin s"
    by (simp add: cv p s1)
  moreover have "\<bar>s - (r + v * dl * a)\<bar> \<le> 12 * E + 6 * eta64"
    using se' pe' cae by linarith
  ultimately show ?thesis unfolding E_def by blast
qed

lemma surface_coord_f64:
  assumes r: "\<bar>r\<bar> \<le> M"
    and v: "\<bar>v1 * dl\<bar> \<le> M" "\<bar>v2 * dl\<bar> \<le> M" and a: "\<bar>a\<bar> \<le> 2" and M: "M \<le> 2 ^ 1000"
  shows "\<exists>s1 s2.
     f64_add (Fin r) (f64_mul (f64_mul (Fin v1) (Fin dl)) (Fin a)) = Fin s1 \<and>
     f64_add (Fin r) (f64_mul (f64_mul (Fin v2) (Fin dl)) (Fin a)) = Fin s2 \<and>
     \<bar>(s2 - s1) - (v2 - v1) * dl * a\<bar> \<le> 2 powi (- 48) * M + 2 powi (- 1071)"
proof -
  define E where "E = eps64 * M"
  have M0: "0 \<le> M" using r by linarith
  note e = eps64_bounds and h = eta64_bounds
  have E0: "0 \<le> E" "E \<le> M / 1000"
    using e M0 eps_mult_le [OF M0] by (simp_all add: E_def)
  have rb: "\<bar>r\<bar> \<le> 3 * M + 16 * eta64" using r M0 h by linarith
  from offset_f64_err [OF rb v(1) a M] obtain s1 where
    s1: "f64_add (Fin r) (f64_mul (f64_mul (Fin v1) (Fin dl)) (Fin a)) = Fin s1"
    and s1e: "\<bar>s1 - (r + v1 * dl * a)\<bar> \<le> 12 * E + 6 * eta64"
    unfolding E_def by blast
  from offset_f64_err [OF rb v(2) a M] obtain s2 where
    s2: "f64_add (Fin r) (f64_mul (f64_mul (Fin v2) (Fin dl)) (Fin a)) = Fin s2"
    and s2e: "\<bar>s2 - (r + v2 * dl * a)\<bar> \<le> 12 * E + 6 * eta64"
    unfolding E_def by blast
  have "(s2 - s1) - (v2 - v1) * dl * a = (s2 - (r + v2 * dl * a)) - (s1 - (r + v1 * dl * a))"
    by (simp add: algebra_simps)
  with s1e s2e have "\<bar>(s2 - s1) - (v2 - v1) * dl * a\<bar> \<le> 24 * E + 12 * eta64"
    by linarith
  also have "\<dots> \<le> 32 * E + 16 * eta64" using E0 h by simp
  also have "\<dots> = 2 powi (- 48) * M + 2 powi (- 1071)"
    by (simp add: E_def eps64_def eta64_def)
  finally show ?thesis using s1 s2 by blast
qed

text \<open>
  C3, as the code has it. For a surface of four 3D control points whose stored direction
  has three finite components of magnitude at most 2, for every \<open>u\<close> at which
  \<open>bezier_point\<close> returns three finite coordinates of magnitude at most \<open>M \<le> 2^1000\<close>,
  and all \<open>v1\<close>, \<open>v2\<close> with \<open>|v1 * delta|\<close> and \<open>|v2 * delta|\<close> at most \<open>M\<close>: both surface
  points are finite, and in every coordinate \<open>surface_point(u, v2) - surface_point(u, v1)\<close>
  differs from \<open>(v2 - v1) * delta\<close> times the stored direction by at most
  \<open>2^-48 * M + 2^-1071\<close>.
\<close>

theorem surface_point_f64_near_linear:
  assumes "control_points s = [[x0, y0, z0], [x1, y1, z1], [x2, y2, z2], [x3, y3, z3]]"
    and "direction_vector s = [Fin a, Fin b, Fin c]"
    and "list_all (\<lambda>c. \<bar>c\<bar> \<le> 2) [a, b, c]"
    and "bezier_point_f64 [Fin x0, Fin y0, Fin z0] [Fin x1, Fin y1, Fin z1]
           [Fin x2, Fin y2, Fin z2] [Fin x3, Fin y3, Fin z3] u = Inr [Fin rx, Fin ry, Fin rz]"
    and "list_all (\<lambda>c. \<bar>c\<bar> \<le> M) [rx, ry, rz]"
    and "\<bar>v1 * delta s\<bar> \<le> M" and "\<bar>v2 * delta s\<bar> \<le> M" and "M \<le> 2 ^ 1000"
  shows "\<exists>X1 Y1 Z1 X2 Y2 Z2.
     surface_point_f64 s u v1 = Inr [Fin X1, Fin Y1, Fin Z1] \<and>
     surface_point_f64 s u v2 = Inr [Fin X2, Fin Y2, Fin Z2] \<and>
     \<bar>(X2 - X1) - (v2 - v1) * delta s * a\<bar> \<le> 2 powi (- 48) * M + 2 powi (- 1071) \<and>
     \<bar>(Y2 - Y1) - (v2 - v1) * delta s * b\<bar> \<le> 2 powi (- 48) * M + 2 powi (- 1071) \<and>
     \<bar>(Z2 - Z1) - (v2 - v1) * delta s * c\<bar> \<le> 2 powi (- 48) * M + 2 powi (- 1071)"
proof -
  from assms(3) have d: "\<bar>a\<bar> \<le> 2" "\<bar>b\<bar> \<le> 2" "\<bar>c\<bar> \<le> 2" by simp_all
  from assms(5) have r: "\<bar>rx\<bar> \<le> M" "\<bar>ry\<bar> \<le> M" "\<bar>rz\<bar> \<le> M" by simp_all
  from assms(4) have cr:
    "casteljau_f64 (Fin x0) (Fin x1) (Fin x2) (Fin x3) u = Fin rx"
    "casteljau_f64 (Fin y0) (Fin y1) (Fin y2) (Fin y3) u = Fin ry"
    "casteljau_f64 (Fin z0) (Fin z1) (Fin z2) (Fin z3) u = Fin rz"
    by (simp_all add: bezier_point_f64_3)
  have s: "s = \<lparr>control_points = [[x0, y0, z0], [x1, y1, z1], [x2, y2, z2], [x3, y3, z3]],
      delta = delta s, direction_vector = [Fin a, Fin b, Fin c], u0 = u0 s, v0 = v0 s\<rparr>"
    using assms(1,2) by (cases s) simp
  note sp = surface_point_f64_3 [of x0 y0 z0 x1 y1 z1 x2 y2 z2 x3 y3 z3 "delta s" "Fin a" "Fin b" "Fin c"
      "u0 s" "v0 s" u, folded s, unfolded cr]
  from surface_coord_f64 [OF r(1) assms(6,7) d(1) assms(8)]
  obtain X1 X2 where X:
    "f64_add (Fin rx) (f64_mul (f64_mul (Fin v1) (Fin (delta s))) (Fin a)) = Fin X1"
    "f64_add (Fin rx) (f64_mul (f64_mul (Fin v2) (Fin (delta s))) (Fin a)) = Fin X2"
    "\<bar>(X2 - X1) - (v2 - v1) * delta s * a\<bar> \<le> 2 powi (- 48) * M + 2 powi (- 1071)" by blast
  from surface_coord_f64 [OF r(2) assms(6,7) d(2) assms(8)]
  obtain Y1 Y2 where Y:
    "f64_add (Fin ry) (f64_mul (f64_mul (Fin v1) (Fin (delta s))) (Fin b)) = Fin Y1"
    "f64_add (Fin ry) (f64_mul (f64_mul (Fin v2) (Fin (delta s))) (Fin b)) = Fin Y2"
    "\<bar>(Y2 - Y1) - (v2 - v1) * delta s * b\<bar> \<le> 2 powi (- 48) * M + 2 powi (- 1071)" by blast
  from surface_coord_f64 [OF r(3) assms(6,7) d(3) assms(8)]
  obtain Z1 Z2 where Z:
    "f64_add (Fin rz) (f64_mul (f64_mul (Fin v1) (Fin (delta s))) (Fin c)) = Fin Z1"
    "f64_add (Fin rz) (f64_mul (f64_mul (Fin v2) (Fin (delta s))) (Fin c)) = Fin Z2"
    "\<bar>(Z2 - Z1) - (v2 - v1) * delta s * c\<bar> \<le> 2 powi (- 48) * M + 2 powi (- 1071)" by blast
  have "surface_point_f64 s u v1 = Inr [Fin X1, Fin Y1, Fin Z1]"
    "surface_point_f64 s u v2 = Inr [Fin X2, Fin Y2, Fin Z2]"
    by (simp_all only: sp X(1,2) Y(1,2) Z(1,2))
  with X(3) Y(3) Z(3) show ?thesis by blast
qed

theorem surface_point_f64_near_linear_witness:
  "list_all (\<lambda>c. \<bar>c\<bar> \<le> (2::real)) [0, 0, 1] \<and>
   bezier_point_f64 [Fin 0, Fin 0, Fin 0] [Fin 1, Fin 2, Fin 0] [Fin 2, Fin 2, Fin 0]
     [Fin 3, Fin 0, Fin 0] 1 = Inr [Fin 3, Fin 0, Fin 0] \<and>
   list_all (\<lambda>c. \<bar>c\<bar> \<le> (6::real)) [3, 0, 0] \<and>
   \<bar>1 * (2::real)\<bar> \<le> 6 \<and> \<bar>3 * (2::real)\<bar> \<le> 6 \<and> (6::real) \<le> 2 ^ 1000 \<and>
   (\<exists>X1 Y1 Z1 X2 Y2 Z2.
     surface_point_f64
       \<lparr>control_points = [[0, 0, 0], [1, 2, 0], [2, 2, 0], [3, 0, 0]], delta = 2,
        direction_vector = [Fin 0, Fin 0, Fin 1], u0 = 1 / 2, v0 = 1\<rparr> 1 1 =
       Inr [Fin X1, Fin Y1, Fin Z1] \<and>
     surface_point_f64
       \<lparr>control_points = [[0, 0, 0], [1, 2, 0], [2, 2, 0], [3, 0, 0]], delta = 2,
        direction_vector = [Fin 0, Fin 0, Fin 1], u0 = 1 / 2, v0 = 1\<rparr> 1 3 =
       Inr [Fin X2, Fin Y2, Fin Z2] \<and>
     \<bar>(X2 - X1) - (3 - 1) * 2 * 0\<bar> \<le> 2 powi (- 48) * 6 + 2 powi (- 1071) \<and>
     \<bar>(Y2 - Y1) - (3 - 1) * 2 * 0\<bar> \<le> 2 powi (- 48) * 6 + 2 powi (- 1071) \<and>
     \<bar>(Z2 - Z1) - (3 - 1) * 2 * 1\<bar> \<le> 2 powi (- 48) * 6 + 2 powi (- 1071))"
proof -
  let ?s = "\<lparr>control_points = [[0, 0, 0], [1, 2, 0], [2, 2, 0], [3, 0, 0]], delta = 2,
          direction_vector = [Fin 0, Fin 0, Fin 1], u0 = 1 / 2, v0 = 1\<rparr>"
  have h: "control_points ?s = [[0, 0, 0], [1, 2, 0], [2, 2, 0], [3, 0, 0]]"
    "direction_vector ?s = [Fin 0, Fin 0, Fin 1]"
    "list_all (\<lambda>c. \<bar>c\<bar> \<le> (2::real)) [0, 0, 1]"
    "bezier_point_f64 [Fin 0, Fin 0, Fin 0] [Fin 1, Fin 2, Fin 0] [Fin 2, Fin 2, Fin 0]
       [Fin 3, Fin 0, Fin 0] 1 = Inr [Fin 3, Fin 0, Fin 0]"
    "list_all (\<lambda>c. \<bar>c\<bar> \<le> (6::real)) [3, 0, 0]"
    "\<bar>1 * delta ?s\<bar> \<le> 6" "\<bar>3 * delta ?s\<bar> \<le> 6" "(6::real) \<le> 2 ^ 1000"
    by (simp_all add: bezier_point_f64_scenario_at_1)
  from surface_point_f64_near_linear [OF h] h(3,4,5,8) show ?thesis by simp
qed

text \<open>
  The claim C3 itself fails on the code. The surface constructed from four control
  points \<open>(2^53, 0, 0)\<close>, \<open>delta = 1\<close> and the direction (1,0,0) stores the direction
  (1,0,0), and \<open>surface_point(0, 1)\<close> and \<open>surface_point(0, 0)\<close> are both
  \<open>(2^53, 0, 0)\<close>: their difference is 0 in the first coordinate, where
  \<open>(1 - 0) * delta\<close> times the direction is 1.
\<close>

theorem surface_point_f64_offset_lost:
  "BezierSurface_init_f64 [[2 ^ 53, 0, 0], [2 ^ 53, 0, 0], [2 ^ 53, 0, 0], [2 ^ 53, 0, 0]]
     1 [1, 0, 0] 0 0 =
     Inr \<lparr>control_points = [[2 ^ 53, 0, 0], [2 ^ 53, 0, 0], [2 ^ 53, 0, 0], [2 ^ 53, 0, 0]],
          delta = 1, direction_vector = [Fin 1, Fin 0, Fin 0], u0 = 0, v0 = 0\<rparr> \<and>
   surface_point_f64
     \<lparr>control_points = [[2 ^ 53, 0, 0], [2 ^ 53, 0, 0], [2 ^ 53, 0, 0], [2 ^ 53, 0, 0]],
      delta = 1, direction_vector = [Fin 1, Fin 0, Fin 0], u0 = 0, v0 = 0\<rparr> 0 1 =
     Inr [Fin (2 ^ 53), Fin 0, Fin 0] \<and>
   surface_point_f64
     \<lparr>control_points = [[2 ^ 53, 0, 0], [2 ^ 53, 0, 0], [2 ^ 53, 0, 0], [2 ^ 53, 0, 0]],
      delta = 1, direction_vector = [Fin 1, Fin 0, Fin 0], u0 = 0, v0 = 0\<rparr> 0 0 =
     Inr [Fin (2 ^ 53), Fin 0, Fin 0]"
proof -
  have c: "casteljau_f64 (Fin (2 ^ 53)) (Fin (2 ^ 53)) (Fin (2 ^ 53)) (Fin (2 ^ 53)) 0 = Fin (2 ^ 53)"
    by (rule casteljau_f64_at_0 [OF fl_2_53 fl_2_53 fl_2_53])
  have z: "casteljau_f64 (Fin 0) (Fin 0) (Fin 0) (Fin 0) 0 = Fin 0"
    by (rule casteljau_f64_at_0 [OF fl_0 fl_0 fl_0])
  have i: "BezierSurface_init_f64 [[2 ^ 53, 0, 0], [2 ^ 53, 0, 0], [2 ^ 53, 0, 0], [2 ^ 53, 0, 0]]
     1 [1, 0, 0] 0 0 =
     Inr \<lparr>control_points = [[2 ^ 53, 0, 0], [2 ^ 53, 0, 0], [2 ^ 53, 0, 0], [2 ^ 53, 0, 0]],
          delta = 1, direction_vector = [Fin 1, Fin 0, Fin 0], u0 = 0, v0 = 0\<rparr>"
    by (simp add: BezierSurface_init_f64_def norm_f64_1_0_0 fl_0 fl_1)
  show ?thesis
    unfolding surface_point_f64_3 c z
    using i fl_2_53_plus_1 fl_2_53 by (simp add: fl_0 fl_1)
qed

subsection \<open>The rounding error of the normalisation\<close>

lemma sum_squares_f64_err:
  assumes lo: "2 powi (- 1000) \<le> S" and hi: "S \<le> 2 ^ 1000"
    and S: "S = dx * dx + dy * dy + dz * dz"
  shows "\<exists>a3. f64_add (f64_add (f64_add (Fin 0) (f64_mul (Fin dx) (Fin dx)))
                   (f64_mul (Fin dy) (Fin dy))) (f64_mul (Fin dz) (Fin dz)) = Fin a3 \<and>
              \<bar>a3 - S\<bar> \<le> 8 * (eps64 * S)"
proof -
  define E where "E = eps64 * S"
  note e = eps64_bounds and h = eta64_bounds
  have S0: "0 < S" using lo zero_less_power_int [of "2::real" "- 1000"] by linarith
  have E0: "0 \<le> E" "E \<le> S / 1000"
    using e S0 eps_mult_le [of S] by (simp_all add: E_def)
  have "eps64 * 2 powi (- 1000) \<le> eps64 * S"
    using e(1) lo by (intro mult_left_mono) simp_all
  moreover have "1000 * eta64 \<le> eps64 * 2 powi (- 1000)"
    by (simp add: eta64_def eps64_def)
  ultimately have hE: "1000 * eta64 \<le> E" by (simp add: E_def)
  have big: "(2::real) ^ 1000 * 8388608 = 2 ^ 1023" "(1::real) \<le> 2 ^ 1000" by simp_all
  define sx sy sz where "sx = dx * dx" and "sy = dy * dy" and "sz = dz * dz"
  have sq: "0 \<le> sx" "0 \<le> sy" "0 \<le> sz" by (simp_all add: sx_def sy_def sz_def)
  have Ss: "S = sx + sy + sz" by (simp add: S sx_def sy_def sz_def)
  have sqS: "sx \<le> S" "sy \<le> S" "sz \<le> S" using sq Ss by linarith+
  \<comment> \<open>the three squares\<close>
  have "\<bar>sx\<bar> \<le> 2 ^ 1023" using sq sqS hi big by linarith
  from fl_err [OF this] obtain qx where qx: "fl (sx) = Fin qx"
    and qxe: "\<bar>qx - sx\<bar> \<le> eps64 * \<bar>sx\<bar> + eta64" by blast
  have "eps64 * \<bar>sx\<bar> \<le> eps64 * S"
    using e(1) sq sqS by (intro mult_left_mono) simp_all
  with qxe have qxe': "\<bar>qx - sx\<bar> \<le> E + eta64" by (simp add: E_def)
  have "\<bar>sy\<bar> \<le> 2 ^ 1023" using sq sqS hi big by linarith
  from fl_err [OF this] obtain qy where qy: "fl (sy) = Fin qy"
    and qye: "\<bar>qy - sy\<bar> \<le> eps64 * \<bar>sy\<bar> + eta64" by blast
  have "eps64 * \<bar>sy\<bar> \<le> eps64 * S"
    using e(1) sq sqS by (intro mult_left_mono) simp_all
  with qye have qye': "\<bar>qy - sy\<bar> \<le> E + eta64" by (simp add: E_def)
  have "\<bar>sz\<bar> \<le> 2 ^ 1023" using sq sqS hi big by linarith
  from fl_err [OF this] obtain qz where qz: "fl (sz) = Fin qz"
    and qze: "\<bar>qz - sz\<bar> \<le> eps64 * \<bar>sz\<bar> + eta64" by blast
  have "eps64 * \<bar>sz\<bar> \<le> eps64 * S"
    using e(1) sq sqS by (intro mult_left_mono) simp_all
  with qze have qze': "\<bar>qz - sz\<bar> \<le> E + eta64" by (simp add: E_def)
  \<comment> \<open>the accumulation\<close>
  have a1: "f64_add (Fin 0) (Fin qx) = Fin qx"
    using fl_idem [OF qx] by simp
  have s2: "\<bar>qx + qy\<bar> \<le> 2 * S + 2 * eta64"
    using qxe' qye' sq sqS Ss E0 by linarith
  then have "\<bar>qx + qy\<bar> \<le> 2 ^ 1023" using hi big h by linarith
  from fl_err [OF this] obtain a2 where a2: "fl (qx + qy) = Fin a2"
    and a2e: "\<bar>a2 - (qx + qy)\<bar> \<le> eps64 * \<bar>qx + qy\<bar> + eta64" by blast
  have p1: "eps64 * \<bar>qx + qy\<bar> \<le> eps64 * (2 * S + 2 * eta64)"
    using e(1) s2 by (intro mult_left_mono) simp_all
  have p2: "eps64 * (2 * S + 2 * eta64) = 2 * E + eps64 * (2 * eta64)"
    by (simp add: E_def algebra_simps)
  have p3: "eps64 * (2 * eta64) \<le> (2 * eta64) / 1000"
    by (rule eps_mult_le) (use h in simp)
  have a2e': "\<bar>a2 - (qx + qy)\<bar> \<le> 2 * E + 2 * eta64"
    using a2e p1 p2 p3 h by linarith
  have s3: "\<bar>a2 + qz\<bar> \<le> 2 * S + 5 * eta64"
    using a2e' qxe' qye' qze' sq sqS Ss E0 by linarith
  then have "\<bar>a2 + qz\<bar> \<le> 2 ^ 1023" using hi big h by linarith
  from fl_err [OF this] obtain a3 where a3: "fl (a2 + qz) = Fin a3"
    and a3e: "\<bar>a3 - (a2 + qz)\<bar> \<le> eps64 * \<bar>a2 + qz\<bar> + eta64" by blast
  have r1: "eps64 * \<bar>a2 + qz\<bar> \<le> eps64 * (2 * S + 5 * eta64)"
    using e(1) s3 by (intro mult_left_mono) simp_all
  have r2: "eps64 * (2 * S + 5 * eta64) = 2 * E + eps64 * (5 * eta64)"
    by (simp add: E_def algebra_simps)
  have r3: "eps64 * (5 * eta64) \<le> (5 * eta64) / 1000"
    by (rule eps_mult_le) (use h in simp)
  have a3e': "\<bar>a3 - (a2 + qz)\<bar> \<le> 2 * E + 2 * eta64"
    using a3e r1 r2 r3 h by linarith
  have "f64_add (f64_add (f64_add (Fin 0) (f64_mul (Fin dx) (Fin dx)))
          (f64_mul (Fin dy) (Fin dy))) (f64_mul (Fin dz) (Fin dz)) = Fin a3"
    using qx qy qz a1 a2 a3 by (simp add: sx_def sy_def sz_def)
  moreover have "\<bar>a3 - S\<bar> \<le> 8 * E"
    using a3e' a2e' qxe' qye' qze' hE Ss by linarith
  ultimately show ?thesis unfolding E_def by blast
qed

lemma sqrt_f64_err:
  assumes lo: "2 powi (- 500) \<le> N" and hi: "N \<le> 2 ^ 500"
    and a3: "\<bar>a3 - N * N\<bar> \<le> 8 * (eps64 * (N * N))"
  shows "\<exists>n. f64_sqrt (Fin a3) = Fin n \<and> \<bar>n - N\<bar> \<le> 11 * (eps64 * N)"
proof -
  define E where "E = eps64 * N"
  note e = eps64_bounds and h = eta64_bounds
  have N0: "0 < N" using lo zero_less_power_int [of "2::real" "- 500"] by linarith
  have E0: "0 \<le> E" "E \<le> N / 1000"
    using e N0 eps_mult_le [of N] by (simp_all add: E_def)
  have "eps64 * 2 powi (- 500) \<le> eps64 * N"
    using e(1) lo by (intro mult_left_mono) simp_all
  moreover have "eta64 \<le> eps64 * 2 powi (- 500)"
    by (simp add: eta64_def eps64_def)
  ultimately have hE: "eta64 \<le> E" by (simp add: E_def)
  have e8: "0 \<le> 1 - 8 * eps64" "8 * eps64 \<le> 1" using e by simp_all
  have NN: "0 < N * N" using N0 by simp
  have lo3: "N * N * (1 - 8 * eps64) \<le> a3" and hi3: "a3 \<le> N * N * (1 + 8 * eps64)"
    using a3 by (simp_all add: algebra_simps abs_le_iff)
  have a30: "0 \<le> a3"
    using lo3 mult_nonneg_nonneg [OF less_imp_le [OF NN] e8(1)] by linarith
  \<comment> \<open>the exact square root\<close>
  have "(N * (1 - 8 * eps64))\<^sup>2 = N * N * (1 - 8 * eps64) * (1 - 8 * eps64)"
    by (simp add: power2_eq_square algebra_simps)
  also have "\<dots> \<le> N * N * (1 - 8 * eps64) * 1"
  proof (rule mult_left_mono)
    show "1 - 8 * eps64 \<le> 1" using e(1) by simp
    show "0 \<le> N * N * (1 - 8 * eps64)" using NN e8 by simp
  qed
  finally have "(N * (1 - 8 * eps64))\<^sup>2 \<le> a3" using lo3 by simp
  then have slo: "N * (1 - 8 * eps64) \<le> sqrt a3" by (rule real_le_rsqrt)
  have "N * N * (1 + 8 * eps64) * 1 \<le> N * N * (1 + 8 * eps64) * (1 + 8 * eps64)"
  proof (rule mult_left_mono)
    show "1 \<le> 1 + 8 * eps64" using e(1) by simp
    show "0 \<le> N * N * (1 + 8 * eps64)" using NN e(1) by simp
  qed
  also have "\<dots> = (N * (1 + 8 * eps64))\<^sup>2"
    by (simp add: power2_eq_square algebra_simps)
  finally have "a3 \<le> (N * (1 + 8 * eps64))\<^sup>2" using hi3 by simp
  moreover have "0 \<le> N * (1 + 8 * eps64)" using N0 e(1) by simp
  ultimately have shi: "sqrt a3 \<le> N * (1 + 8 * eps64)" by (intro real_le_lsqrt)
  have se: "\<bar>sqrt a3 - N\<bar> \<le> 8 * E"
    using slo shi by (simp add: E_def algebra_simps abs_le_iff)
  then have sb: "\<bar>sqrt a3\<bar> \<le> 2 * N" using E0 N0 by linarith
  have "(2::real) ^ 500 * 2 \<le> 2 ^ 1023" by simp
  then have "\<bar>sqrt a3\<bar> \<le> 2 ^ 1023" using sb hi by linarith
  from fl_err [OF this] obtain n where n: "fl (sqrt a3) = Fin n"
    and ne: "\<bar>n - sqrt a3\<bar> \<le> eps64 * \<bar>sqrt a3\<bar> + eta64" by blast
  have "eps64 * \<bar>sqrt a3\<bar> \<le> eps64 * (2 * N)"
    using e(1) sb by (intro mult_left_mono) simp_all
  with ne have ne': "\<bar>n - sqrt a3\<bar> \<le> 2 * E + eta64" by (simp add: E_def)
  have "f64_sqrt (Fin a3) = Fin n" using a30 n by simp
  moreover have "\<bar>n - N\<bar> \<le> 11 * E" using ne' se hE by linarith
  ultimately show ?thesis unfolding E_def by blast
qed

lemma div_f64_err:
  assumes lo: "2 powi (- 500) \<le> N"
    and n: "\<bar>n - N\<bar> \<le> 11 * (eps64 * N)" and d: "\<bar>d\<bar> \<le> N"
  shows "\<exists>a. f64_div d (Fin n) = Fin a \<and> \<bar>a - d / N\<bar> \<le> 15 * eps64"
proof -
  note e = eps64_bounds and h = eta64_bounds
  have N0: "0 < N" using lo zero_less_power_int [of "2::real" "- 500"] by linarith
  have "eps64 * N \<le> N / 1000" using eps_mult_le [of N] N0 by simp
  with n have nlo: "11 / 12 * N \<le> n" by linarith
  then have n0: "0 < n" using N0 by linarith
  \<comment> \<open>the exact quotients\<close>
  have "\<bar>d / n\<bar> = \<bar>d\<bar> / n" using n0 by simp
  also have "\<dots> \<le> N / n" using d n0 by (simp add: divide_right_mono)
  also have "\<dots> \<le> 12 / 11"
    using nlo n0 N0 by (simp add: field_simps)
  finally have qb: "\<bar>d / n\<bar> \<le> 12 / 11" .
  have "d / n - d / N = d * (N - n) / (n * N)"
    using n0 N0 by (simp add: field_simps)
  then have "\<bar>d / n - d / N\<bar> = \<bar>d\<bar> * \<bar>N - n\<bar> / (n * N)"
    using n0 N0 by (simp add: abs_mult)
  also have "\<dots> \<le> N * (11 * (eps64 * N)) / (n * N)"
    using d n n0 N0 e(1)
    by (intro divide_right_mono mult_mono) (simp_all add: abs_minus_commute)
  also have "\<dots> = 11 * eps64 * (N / n)"
    using n0 N0 by (simp add: field_simps)
  also have "\<dots> \<le> 11 * eps64 * (12 / 11)"
    using nlo n0 N0 e(1) by (intro mult_left_mono) (simp_all add: field_simps)
  finally have qe: "\<bar>d / n - d / N\<bar> \<le> 12 * eps64" by simp
  have "(12 / 11 :: real) \<le> 2 ^ 1023" by simp
  with qb have "\<bar>d / n\<bar> \<le> 2 ^ 1023" by linarith
  from fl_err [OF this] obtain a where a: "fl (d / n) = Fin a"
    and ae: "\<bar>a - d / n\<bar> \<le> eps64 * \<bar>d / n\<bar> + eta64" by blast
  have "eps64 * \<bar>d / n\<bar> \<le> eps64 * (12 / 11)"
    using e(1) qb by (intro mult_left_mono) simp_all
  with ae h have ae': "\<bar>a - d / n\<bar> \<le> 3 * eps64" by linarith
  have "f64_div d (Fin n) = Fin a" using n0 a by simp
  moreover have "\<bar>a - d / N\<bar> \<le> 15 * eps64" using ae' qe by linarith
  ultimately show ?thesis by blast
qed

lemma sqrt_near_one:
  assumes "0 \<le> X"
  shows "\<bar>sqrt X - 1\<bar> \<le> \<bar>X - 1\<bar>"
proof -
  define y where "y = sqrt X"
  have y0: "0 \<le> y" using assms by (simp add: y_def)
  have X: "X = y * y" using assms by (simp add: y_def)
  have "\<bar>y - 1\<bar> * 1 \<le> \<bar>y - 1\<bar> * \<bar>y + 1\<bar>"
    using y0 by (intro mult_left_mono) simp_all
  also have "\<dots> = \<bar>y * y - 1\<bar>"
    by (simp add: abs_mult [symmetric] algebra_simps)
  finally show ?thesis by (simp add: X y_def [symmetric])
qed

lemma square_near:
  assumes "\<bar>e\<bar> \<le> 1" and "\<bar>a - e\<bar> \<le> 15 * eps64"
  shows "\<bar>a * a - e * e\<bar> \<le> 31 * eps64"
proof -
  note ep = eps64_bounds
  have "\<bar>a + e\<bar> \<le> 31 / 15" using assms ep by linarith
  have "a * a - e * e = (a - e) * (a + e)" by (simp add: algebra_simps)
  then have "\<bar>a * a - e * e\<bar> = \<bar>a - e\<bar> * \<bar>a + e\<bar>" by (simp add: abs_mult)
  also have "\<dots> \<le> (15 * eps64) * (31 / 15)"
    using assms(2) \<open>\<bar>a + e\<bar> \<le> 31 / 15\<close> by (intro mult_mono) simp_all
  finally show ?thesis by simp
qed

lemma normalize_f64_3:
  assumes lo: "2 powi (- 500) \<le> np_linalg_norm [dx, dy, dz]"
    and hi: "np_linalg_norm [dx, dy, dz] \<le> 2 ^ 500"
  shows "\<exists>a b c.
     map (\<lambda>x. f64_div x (np_linalg_norm_f64 [dx, dy, dz])) [dx, dy, dz] = [Fin a, Fin b, Fin c] \<and>
     \<bar>np_linalg_norm [a, b, c] - 1\<bar> \<le> 2 powi (- 46) \<and>
     \<bar>a - dx / np_linalg_norm [dx, dy, dz]\<bar> \<le> 2 powi (- 49) \<and>
     \<bar>b - dy / np_linalg_norm [dx, dy, dz]\<bar> \<le> 2 powi (- 49) \<and>
     \<bar>c - dz / np_linalg_norm [dx, dy, dz]\<bar> \<le> 2 powi (- 49)"
proof -
  define S where "S = dx * dx + dy * dy + dz * dz"
  define N where "N = np_linalg_norm [dx, dy, dz]"
  have N: "N = sqrt S" by (simp add: N_def S_def np_linalg_norm_def)
  have S0: "0 \<le> S" by (simp add: S_def)
  have N0: "0 < N" using lo zero_less_power_int [of "2::real" "- 500"] unfolding N_def by linarith
  have NN: "N * N = S" using S0 by (simp add: N)
  have "(2 powi (- 500) :: real) * 2 powi (- 500) \<le> N * N"
    using lo unfolding N_def [symmetric] by (intro mult_mono) simp_all
  then have Slo: "2 powi (- 1000) \<le> S" by (simp add: NN)
  have "N * N \<le> 2 ^ 500 * 2 ^ 500"
    using hi N0 unfolding N_def [symmetric] by (intro mult_mono) simp_all
  then have Shi: "S \<le> 2 ^ 1000" by (simp add: NN)
  from sum_squares_f64_err [OF Slo Shi S_def] obtain a3 where
    a3: "f64_add (f64_add (f64_add (Fin 0) (f64_mul (Fin dx) (Fin dx)))
           (f64_mul (Fin dy) (Fin dy))) (f64_mul (Fin dz) (Fin dz)) = Fin a3"
    and a3e: "\<bar>a3 - S\<bar> \<le> 8 * (eps64 * S)" by blast
  from sqrt_f64_err [OF lo [folded N_def] hi [folded N_def] a3e [folded NN]] obtain n where
    n: "f64_sqrt (Fin a3) = Fin n" and ne: "\<bar>n - N\<bar> \<le> 11 * (eps64 * N)" by blast
  have nf: "np_linalg_norm_f64 [dx, dy, dz] = Fin n"
    by (simp only: norm_f64_3 a3 n)
  have "sqrt (dx * dx) \<le> sqrt S" "sqrt (dy * dy) \<le> sqrt S" "sqrt (dz * dz) \<le> sqrt S"
    unfolding S_def by (intro real_sqrt_le_mono; simp)+
  then have d: "\<bar>dx\<bar> \<le> N" "\<bar>dy\<bar> \<le> N" "\<bar>dz\<bar> \<le> N" by (simp_all add: N)
  from div_f64_err [OF lo [folded N_def] ne d(1)] obtain a where
    a: "f64_div dx (Fin n) = Fin a" and ae: "\<bar>a - dx / N\<bar> \<le> 15 * eps64" by blast
  from div_f64_err [OF lo [folded N_def] ne d(2)] obtain b where
    b: "f64_div dy (Fin n) = Fin b" and be: "\<bar>b - dy / N\<bar> \<le> 15 * eps64" by blast
  from div_f64_err [OF lo [folded N_def] ne d(3)] obtain c where
    c: "f64_div dz (Fin n) = Fin c" and ce: "\<bar>c - dz / N\<bar> \<le> 15 * eps64" by blast
  \<comment> \<open>the exact unit vector\<close>
  have u1: "\<bar>dx / N\<bar> \<le> 1" "\<bar>dy / N\<bar> \<le> 1" "\<bar>dz / N\<bar> \<le> 1"
    using d N0 by simp_all
  have "dx / N * (dx / N) + dy / N * (dy / N) + dz / N * (dz / N) = S / (N * N)"
    by (simp add: S_def add_divide_distrib)
  also have "\<dots> = 1" using N0 by (simp add: NN [symmetric])
  finally have unit: "dx / N * (dx / N) + dy / N * (dy / N) + dz / N * (dz / N) = 1" .
  have "\<bar>(a * a + b * b + c * c) - 1\<bar> \<le> 93 * eps64"
    using square_near [OF u1(1) ae] square_near [OF u1(2) be] square_near [OF u1(3) ce] unit
    by linarith
  moreover have "0 \<le> a * a + b * b + c * c" by simp
  ultimately have "\<bar>sqrt (a * a + b * b + c * c) - 1\<bar> \<le> 93 * eps64"
    using sqrt_near_one [of "a * a + b * b + c * c"] by linarith
  moreover have "93 * eps64 \<le> 2 powi (- 46)" "15 * eps64 \<le> 2 powi (- 49)"
    by (simp_all add: eps64_def)
  moreover have "np_linalg_norm [a, b, c] = sqrt (a * a + b * b + c * c)"
    by (simp add: np_linalg_norm_def add.assoc)
  moreover have "map (\<lambda>x. f64_div x (np_linalg_norm_f64 [dx, dy, dz])) [dx, dy, dz] =
      [Fin a, Fin b, Fin c]"
    by (simp only: nf a b c list.map)
  ultimately show ?thesis
    using ae be ce unfolding N_def by (intro exI [of _ a] exI [of _ b] exI [of _ c]) linarith
qed

text \<open>
  C6, as the code has it. For every 3D input direction whose Euclidean norm lies between
  \<open>2^-500\<close> and \<open>2^500\<close>, the constructor stores a direction of three finite floats
  whose Euclidean norm differs from 1 by at most \<open>2^-46\<close> and whose every component
  differs by at most \<open>2^-49\<close> from the input's component divided by the input's norm (the
  input scaled by a positive factor); no sequence of method calls on the object changes
  the stored direction.
\<close>

theorem init_f64_direction_near_unit:
  assumes "2 powi (- 500) \<le> np_linalg_norm [dx, dy, dz]"
    and "np_linalg_norm [dx, dy, dz] \<le> 2 ^ 500"
  shows "\<exists>s a b c.
     BezierSurface_init_f64 cps dl [dx, dy, dz] u v = Inr s \<and>
     direction_vector s = [Fin a, Fin b, Fin c] \<and>
     \<bar>np_linalg_norm [a, b, c] - 1\<bar> \<le> 2 powi (- 46) \<and>
     \<bar>a - dx / np_linalg_norm [dx, dy, dz]\<bar> \<le> 2 powi (- 49) \<and>
     \<bar>b - dy / np_linalg_norm [dx, dy, dz]\<bar> \<le> 2 powi (- 49) \<and>
     \<bar>c - dz / np_linalg_norm [dx, dy, dz]\<bar> \<le> 2 powi (- 49) \<and>
     (\<forall>cs. direction_vector (calls_f64 s cs) = direction_vector s)"
proof -
  let ?P = "\<lambda>a b c.
     map (\<lambda>x. f64_div x (np_linalg_norm_f64 [dx, dy, dz])) [dx, dy, dz] = [Fin a, Fin b, Fin c] \<and>
     \<bar>np_linalg_norm [a, b, c] - 1\<bar> \<le> 2 powi (- 46) \<and>
     \<bar>a - dx / np_linalg_norm [dx, dy, dz]\<bar> \<le> 2 powi (- 49) \<and>
     \<bar>b - dy / np_linalg_norm [dx, dy, dz]\<bar> \<le> 2 powi (- 49) \<and>
     \<bar>c - dz / np_linalg_norm [dx, dy, dz]\<bar> \<le> 2 powi (- 49)"
  from normalize_f64_3 [OF assms] have "\<exists>a b c. ?P a b c" .
  then obtain a b c where h: "?P a b c" by (elim exE)
  define s where "s = \<lparr>control_points = cps, delta = dl,
      direction_vector = map (\<lambda>x. f64_div x (np_linalg_norm_f64 [dx, dy, dz])) [dx, dy, dz],
      u0 = u, v0 = v\<rparr>"
  have "BezierSurface_init_f64 cps dl [dx, dy, dz] u v = Inr s"
    by (simp only: BezierSurface_init_f64_def s_def)
  moreover have "direction_vector s = [Fin a, Fin b, Fin c]"
    using h by (simp only: s_def BezierSurface.simps)
  moreover have "\<forall>cs. direction_vector (calls_f64 s cs) = direction_vector s"
    by (simp only: calls_f64_same) simp
  ultimately show ?thesis using h by blast
qed

theorem init_f64_direction_near_unit_witness:
  "2 powi (- 500) \<le> np_linalg_norm [0, 0, 5] \<and> np_linalg_norm [0, 0, 5] \<le> 2 ^ 500 \<and>
   (\<exists>s a b c.
     BezierSurface_init_f64 [[0, 0, 0], [1, 2, 0], [2, 2, 0], [3, 0, 0]] 2 [0, 0, 5] (1 / 2) 1 =
       Inr s \<and>
     direction_vector s = [Fin a, Fin b, Fin c] \<and>
     \<bar>np_linalg_norm [a, b, c] - 1\<bar> \<le> 2 powi (- 46) \<and>
     \<bar>a - 0 / np_linalg_norm [0, 0, 5]\<bar> \<le> 2 powi (- 49) \<and>
     \<bar>b - 0 / np_linalg_norm [0, 0, 5]\<bar> \<le> 2 powi (- 49) \<and>
     \<bar>c - 5 / np_linalg_norm [0, 0, 5]\<bar> \<le> 2 powi (- 49) \<and>
     (\<forall>cs. direction_vector (calls_f64 s cs) = direction_vector s))"
proof -
  have h: "2 powi (- 500) \<le> np_linalg_norm [0, 0, 5]" "np_linalg_norm [0, 0, 5] \<le> 2 ^ 500"
    by (simp_all add: norm_0_0_5)
  from init_f64_direction_near_unit [OF h] h show ?thesis by blast
qed

text \<open>
  The claim C6 itself fails on the code: for the direction \<open>(2^600, 0, 0)\<close>, of non-zero
  norm, the square \<open>2^1200\<close> overflows, the norm is infinite, and the constructor stores
  the direction (0,0,0), whose norm is 0.
\<close>

theorem init_f64_direction_overflow:
  "BezierSurface_init_f64 [[0, 0, 0], [1, 2, 0], [2, 2, 0], [3, 0, 0]] 2 [2 ^ 600, 0, 0] (1 / 2) 1 =
     Inr \<lparr>control_points = [[0, 0, 0], [1, 2, 0], [2, 2, 0], [3, 0, 0]], delta = 2,
          direction_vector = [Fin 0, Fin 0, Fin 0], u0 = 1 / 2, v0 = 1\<rparr>"
proof -
  have "fl (2 ^ 600 * 2 ^ 600) = PInf"
    using fl_2_1200 by (simp add: power_add [symmetric])
  then have "np_linalg_norm_f64 [2 ^ 600, 0, 0] = PInf"
    by (simp add: norm_f64_3 fl_0)
  then show ?thesis
    by (simp add: BezierSurface_init_f64_def)
qed

end
